theory Spec2Isabelle
  imports Main "HOL-Library.AList"
begin

section \<open>Python values, errors and the external Field class\<close>

text \<open>
  The values the document layer of \<^verbatim>\<open>nanomongo/document.py\<close> handles. A Python
  dict is an association list in insertion order (\<open>AList.update\<close> overwrites a key in
  place and appends a new one at the end, as \<^verbatim>\<open>d[k] = v\<close> does). The keys of a dict
  value \<open>PDict\<close> are values of any kind; the keyword arguments of a call and the keys of
  a document instance are strings. \<open>PObj\<close> is any other object (a client, an ObjectId),
  identified by a number; such an object defines neither \<^verbatim>\<open>__bool__\<close> nor \<^verbatim>\<open>__len__\<close>
  and is therefore true.
\<close>

datatype pyval =
    PNone
  | PBool bool
  | PInt int
  | PStr string
  | PList "pyval list"
  | PDict "(pyval \<times> pyval) list"
  | PObj nat

text \<open>Python truth value, as used by \<^verbatim>\<open>not x\<close>.\<close>

fun truthy :: "pyval \<Rightarrow> bool" where
  "truthy PNone = False"
| "truthy (PBool b) = b"
| "truthy (PInt i) = (i \<noteq> 0)"
| "truthy (PStr s) = (s \<noteq> [])"
| "truthy (PList xs) = (xs \<noteq> [])"
| "truthy (PDict d) = (d \<noteq> [])"
| "truthy (PObj n) = True"

text \<open>\<^verbatim>\<open>isinstance(x, str)\<close> and \<^verbatim>\<open>isinstance(x, dict)\<close>.\<close>

fun is_str :: "pyval \<Rightarrow> bool" where
  "is_str (PStr s) = True"
| "is_str v = False"

fun is_dict :: "pyval \<Rightarrow> bool" where
  "is_dict (PDict d) = True"
| "is_dict v = False"

fun dict_items :: "pyval \<Rightarrow> (pyval \<times> pyval) list" where
  "dict_items (PDict d) = d"
| "dict_items v = []"

text \<open>
  The messages of the two \<^verbatim>\<open>ValidationError\<close>s that \<^verbatim>\<open>validate_all\<close> raises are kept
  structured instead of formatted: \<open>ExtraFieldMsg f v\<close> is
  \<^verbatim>\<open>'extra field "%s" with value "%s"' % (f, v)\<close> and \<open>RequiredMissingMsg f\<close> is
  \<^verbatim>\<open>'required field "%s" missing' % f\<close>. \<open>ValidatorMsg\<close> is whatever text a field
  validator of the external Field class puts in its error.
\<close>

datatype vmessage =
    ExtraFieldMsg string pyval
  | RequiredMissingMsg string
  | ValidatorMsg string

text \<open>
  The exceptions of the module. \<open>ExtraFieldError f v\<close> carries the field name and value
  of \<^verbatim>\<open>'Undefined field %s=%s in %s'\<close>. \<open>KeyError\<close> is the built-in error of a failed
  dict lookup. \<open>UnknownFieldError\<close> is named by the specification's error taxonomy
  only: \<^verbatim>\<open>document.py\<close> neither imports nor raises it.
\<close>

datatype error =
    TypeError string
  | ConfigurationError string
  | ExtraFieldError string pyval
  | ValidationError vmessage
  | KeyError string
  | UnknownFieldError string

fun is_UnknownFieldError :: "error + 'a \<Rightarrow> bool" where
  "is_UnknownFieldError (Inl (UnknownFieldError m)) = True"
| "is_UnknownFieldError r = False"


text \<open>
  Modelled from the spec: the class \<^verbatim>\<open>Field\<close> of \<^verbatim>\<open>nanomongo/field.py\<close> is not among
  the sources. The specification gives a FieldSpec the attributes
  \<^verbatim>\<open>required: bool\<close>, an optional \<^verbatim>\<open>default_value\<close> (a value or a zero-argument
  provider invoked per instance) and a validation capability
  \<^verbatim>\<open>validate(value, field_name) -> value | fails\<close>. A Field is the data it was declared
  with; \<open>default_value = None\<close> is an instance without the attribute
  (\<^verbatim>\<open>hasattr(field, 'default_value')\<close> is false). A provider is represented by the
  outcome of a call of it: the value it returns or the error it raises. The validation capability is a parameter \<open>vld\<close> of every
  function that validates: \<open>vld f v name\<close> is \<^verbatim>\<open>f.validator(v, field_name=name)\<close>.
\<close>

datatype pytype = TStr | TInt | TList | TObjectId

datatype default = Value pyval | Provider "error + pyval"

record Field =
  data_type :: pytype
  required :: bool
  default_value :: "default option"

type_synonym validator = "Field \<Rightarrow> pyval \<Rightarrow> string \<Rightarrow> error + pyval"

text \<open>\<^verbatim>\<open>val() if callable(val) else val\<close>\<close>

fun materialise :: "default \<Rightarrow> error + pyval" where
  "materialise (Value v) = Inr v"
| "materialise (Provider outcome) = outcome"

section \<open>The store of field mappings\<close>

text \<open>
  The \<^verbatim>\<open>fields\<close> dict of a \<^verbatim>\<open>Nanomongo\<close> object is a mutable object that the metaclass
  writes to after it was built (\<^verbatim>\<open>cls.nanomongo.fields['_id'] = ...\<close>), and a parent's
  dict is passed by reference to \<^verbatim>\<open>from_dicts\<close>. Field mappings therefore live in a
  store: \<open>cells h a\<close> is the dict at address \<open>a\<close>, and the addresses below
  \<open>next_free h\<close> are the allocated ones.
\<close>

type_synonym fields_dict = "(string \<times> Field) list"

record heap =
  cells :: "nat \<Rightarrow> fields_dict"
  next_free :: nat

text \<open>\<^verbatim>\<open>fields = {}\<close>: a new, empty dict at a fresh address.\<close>

definition new_dict :: "heap \<Rightarrow> nat \<times> heap" where
  "new_dict h = (next_free h, h\<lparr>cells := (cells h)(next_free h := []), next_free := Suc (next_free h)\<rparr>)"

text \<open>\<^verbatim>\<open>d[k] = f\<close> on the dict at address \<open>a\<close>.\<close>

definition dict_setitem :: "heap \<Rightarrow> nat \<Rightarrow> string \<Rightarrow> Field \<Rightarrow> heap" where
  "dict_setitem h a k f = h\<lparr>cells := (cells h)(a := AList.update k f (cells h a))\<rparr>"

section \<open>class Nanomongo\<close>

text \<open>
  \<open>fields_ref\<close> is the address of the dict \<^verbatim>\<open>self.fields\<close>; \<open>client\<close>, \<open>database\<close> and
  \<open>collection\<close> are Python values, \<open>PNone\<close> until set.
\<close>

record Nanomongo =
  fields_ref :: nat
  client :: pyval
  database :: pyval
  collection :: pyval

text \<open>
  \<^verbatim>\<open>Nanomongo.__init__(self, fields=None)\<close>; the argument is the address of a dict, or
  \<open>None\<close> for anything that is not a dict.
\<close>

definition Nanomongo_init :: "nat option \<Rightarrow> error + Nanomongo" where
  "Nanomongo_init fields_arg =
     (case fields_arg of
        None \<Rightarrow> Inl (TypeError ''fields kwarg expected of type dict'')
      | Some a \<Rightarrow> Inr \<lparr>fields_ref = a, client = PNone, database = PNone, collection = PNone\<rparr>)"

text \<open>
  An argument of \<^verbatim>\<open>from_dicts\<close>: the field mapping of an existing \<^verbatim>\<open>Nanomongo\<close> (by
  reference), a class namespace whose values are Fields or other objects, or
  something that is not a dict.
\<close>

datatype attr = FieldAttr Field | OtherAttr pyval

datatype dict_arg =
    FieldsOf nat
  | ClassDict "(string \<times> attr) list"
  | NotADict pyval

fun arg_items :: "heap \<Rightarrow> dict_arg \<Rightarrow> (string \<times> attr) list" where
  "arg_items h (FieldsOf a) = map (\<lambda>(k, f). (k, FieldAttr f)) (cells h a)"
| "arg_items h (ClassDict d) = d"
| "arg_items h (NotADict v) = []"

text \<open>
  The inner loop of \<^verbatim>\<open>from_dicts\<close>:
  \<^verbatim>\<open>for field_name, field_value in dct.items():
      if isinstance(field_value, Field): fields[field_name] = field_value\<close>
\<close>

fun store_fields :: "heap \<Rightarrow> nat \<Rightarrow> (string \<times> attr) list \<Rightarrow> heap" where
  "store_fields h a [] = h"
| "store_fields h a ((k, FieldAttr f) # xs) = store_fields (dict_setitem h a k f) a xs"
| "store_fields h a ((k, OtherAttr v) # xs) = store_fields h a xs"

text \<open>The outer loop: \<^verbatim>\<open>for dct in args\<close>, with its type check.\<close>

fun from_dicts_loop :: "heap \<Rightarrow> nat \<Rightarrow> dict_arg list \<Rightarrow> error + heap" where
  "from_dicts_loop h a [] = Inr h"
| "from_dicts_loop h a (NotADict v # ds) = Inl (TypeError ''expected input of dictionaries'')"
| "from_dicts_loop h a (d # ds) = from_dicts_loop (store_fields h a (arg_items h d)) a ds"

definition from_dicts :: "heap \<Rightarrow> dict_arg list \<Rightarrow> error + heap \<times> Nanomongo" where
  "from_dicts h args =
     (if args = [] then Inl (TypeError ''from_dicts takes at least 1 positional argument'')
      else case new_dict h of (a, h1) \<Rightarrow>
        (case from_dicts_loop h1 a args of
           Inl e \<Rightarrow> Inl e
         | Inr h2 \<Rightarrow>
             (case Nanomongo_init (Some a) of
                Inl e \<Rightarrow> Inl e
              | Inr nm \<Rightarrow> Inr (h2, nm))))"

definition has_field :: "heap \<Rightarrow> Nanomongo \<Rightarrow> string \<Rightarrow> bool" where
  "has_field h nm key = (key \<in> fst ` set (cells h (fields_ref nm)))"

text \<open>
  \<^verbatim>\<open>self.fields[field_name].validator(value, field_name=field_name)\<close>: the subscript
  raises \<^verbatim>\<open>KeyError\<close> on a name that is not a key.
\<close>

definition Nanomongo_validate ::
  "validator \<Rightarrow> heap \<Rightarrow> Nanomongo \<Rightarrow> string \<Rightarrow> pyval \<Rightarrow> error + pyval" where
  "Nanomongo_validate vld h nm field_name v =
     (case map_of (cells h (fields_ref nm)) field_name of
        None \<Rightarrow> Inl (KeyError field_name)
      | Some f \<Rightarrow> vld f v field_name)"

text \<open>
  \<^verbatim>\<open>valid_client\<close> of \<^verbatim>\<open>nanomongo/util.py\<close> is not among the sources; it is the
  parameter \<open>valid_client\<close>.
\<close>

definition set_client :: "(pyval \<Rightarrow> bool) \<Rightarrow> Nanomongo \<Rightarrow> pyval \<Rightarrow> error + Nanomongo" where
  "set_client valid_client nm c =
     (if \<not> valid_client c then Inl (TypeError ''pymongo or motor Client expected'')
      else Inr (nm\<lparr>client := c\<rparr>))"

definition set_db :: "Nanomongo \<Rightarrow> pyval \<Rightarrow> error + Nanomongo" where
  "set_db nm db_string =
     (if \<not> truthy db_string \<or> \<not> is_str db_string then Inl (TypeError ''Exected database string'')
      else Inr (nm\<lparr>database := db_string\<rparr>))"

definition set_collection :: "Nanomongo \<Rightarrow> pyval \<Rightarrow> error + Nanomongo" where
  "set_collection nm col_string =
     (if \<not> truthy col_string \<or> \<not> is_str col_string then Inl (TypeError ''Expected collection string'')
      else Inr (nm\<lparr>collection := col_string\<rparr>))"

text \<open>
  \<^verbatim>\<open>self.client[self.database][self.collection]\<close> is a call into the client library;
  its result is the handle \<open>Collection client database collection\<close>.
\<close>

datatype handle = Collection pyval pyval pyval

definition get_collection :: "Nanomongo \<Rightarrow> error + handle" where
  "get_collection nm =
     (if \<not> truthy (client nm) then Inl (ConfigurationError ''Mongo client not set'')
      else if \<not> truthy (database nm) then Inl (ConfigurationError ''db not set'')
      else if \<not> truthy (collection nm) then Inl (ConfigurationError ''collection not set'')
      else Inr (Collection (client nm) (database nm) (collection nm)))"

section \<open>class DocumentMeta\<close>

text \<open>
  A class is \<^verbatim>\<open>object\<close> or a class with an identity and its \<^verbatim>\<open>__bases__\<close>. Equality is
  the identity test of \<^verbatim>\<open>b in seen\<close> (the same class has the same identity and the same
  bases).
\<close>

datatype pyclass = Object | Class nat "pyclass list"

text \<open>
  The generator \<^verbatim>\<open>__get_bases\<close>:
  \<^verbatim>\<open>for base in bases:
      if base is object: continue
      yield base
      for child_base in cls.__get_bases(base.__bases__): yield child_base\<close>
\<close>

fun get_bases_gen :: "pyclass list \<Rightarrow> pyclass list" where
  "get_bases_gen [] = []"
| "get_bases_gen (Object # bases) = get_bases_gen bases"
| "get_bases_gen (Class i bs # bases) = Class i bs # get_bases_gen bs @ get_bases_gen bases"

text \<open>\<^verbatim>\<open>(b for b in bases if not (b in seen or seen.append(b)))\<close>\<close>

fun unique_bases :: "pyclass list \<Rightarrow> pyclass list \<Rightarrow> pyclass list" where
  "unique_bases seen [] = []"
| "unique_bases seen (b # bases) =
     (if b \<in> set seen then unique_bases seen bases else b # unique_bases (seen @ [b]) bases)"

text \<open>
  The \<^verbatim>\<open>bases\<close> argument is a plain tuple (what a \<^verbatim>\<open>class\<close> statement passes) or already a
  \<^verbatim>\<open>BasesTuple\<close>. The result of \<^verbatim>\<open>_get_bases\<close> is a \<^verbatim>\<open>BasesTuple\<close> in both branches; the
  model returns its elements.
\<close>

datatype bases_arg = PlainTuple "pyclass list" | BasesTuple "pyclass list"

fun get_bases :: "bases_arg \<Rightarrow> pyclass list" where
  "get_bases (BasesTuple bases) = bases"
| "get_bases (PlainTuple bases) = unique_bases [] (get_bases_gen bases)"

text \<open>
  \<^verbatim>\<open>DocumentMeta.__new__\<close>: the bases it hands to \<^verbatim>\<open>type.__new__\<close>. The class
  \<^verbatim>\<open>DotNotationMixin\<close> of \<^verbatim>\<open>nanomongo/util.py\<close> is not among the sources; it is the
  parameter \<open>mixin\<close>.
\<close>

definition DocumentMeta_new :: "pyclass \<Rightarrow> bases_arg \<Rightarrow> (string \<times> pyval) list \<Rightarrow> pyclass list" where
  "DocumentMeta_new mixin bases kwargs =
     (let use_dot_notation = (case map_of kwargs ''dot_notation'' of Some v \<Rightarrow> v | None \<Rightarrow> PNone);
          new_bases = get_bases bases
      in if truthy use_dot_notation \<and> mixin \<notin> set new_bases then mixin # new_bases
         else new_bases)"

text \<open>\<^verbatim>\<open>str.lower\<close> on ASCII letters.\<close>

definition lower_char :: "char \<Rightarrow> char" where
  "lower_char c =
     (let n = (of_char c :: nat) in if 65 \<le> n \<and> n \<le> 90 then char_of (n + 32) else c)"

definition lower :: "string \<Rightarrow> string" where
  "lower s = map lower_char s"

text \<open>\<^verbatim>\<open>Field(ObjectId, required=False)\<close>: no default is passed.\<close>

definition id_field :: Field where
  "id_field = \<lparr>data_type = TObjectId, required = False, default_value = None\<rparr>"

text \<open>
  \<^verbatim>\<open>DocumentMeta.__init__\<close>, first part: the field mapping. \<open>inherited\<close> is what the
  attribute lookup \<^verbatim>\<open>cls.nanomongo\<close> finds before the assignment: the \<^verbatim>\<open>Nanomongo\<close> of
  the nearest ancestor that has one, or nothing (\<^verbatim>\<open>hasattr\<close> is false).
\<close>

definition build_fields ::
  "heap \<Rightarrow> Nanomongo option \<Rightarrow> (string \<times> attr) list \<Rightarrow> error + heap \<times> Nanomongo" where
  "build_fields h inherited dct =
     (case (case inherited of
              Some p \<Rightarrow> from_dicts h [FieldsOf (fields_ref p), ClassDict dct]
            | None \<Rightarrow> from_dicts h [ClassDict dct]) of
        Inl e \<Rightarrow> Inl e
      | Inr (h1, nm) \<Rightarrow>
          if \<not> has_field h1 nm ''_id''
          then Inr (dict_setitem h1 (fields_ref nm) ''_id'' id_field, nm)
          else Inr (h1, nm))"

text \<open>
  Second part: the storage coordinates from the keyword arguments of the class
  statement. (The \<^verbatim>\<open>delattr\<close> loop in between removes the Field attributes from the
  class and touches neither the store nor the \<^verbatim>\<open>Nanomongo\<close>.)
\<close>

definition bind_storage ::
  "(pyval \<Rightarrow> bool) \<Rightarrow> Nanomongo \<Rightarrow> string \<Rightarrow> (string \<times> pyval) list \<Rightarrow> error + Nanomongo" where
  "bind_storage valid_client nm name kwargs =
     (case (case map_of kwargs ''client'' of
              Some c \<Rightarrow> set_client valid_client nm c | None \<Rightarrow> Inr nm) of
        Inl e \<Rightarrow> Inl e
      | Inr nm1 \<Rightarrow>
          (case (case map_of kwargs ''db'' of
                   Some d \<Rightarrow> set_db nm1 d | None \<Rightarrow> Inr nm1) of
             Inl e \<Rightarrow> Inl e
           | Inr nm2 \<Rightarrow>
               (case map_of kwargs ''collection'' of
                  Some c \<Rightarrow> set_collection nm2 c
                | None \<Rightarrow> set_collection nm2 (PStr (lower name)))))"

definition DocumentMeta_init ::
  "(pyval \<Rightarrow> bool) \<Rightarrow> heap \<Rightarrow> Nanomongo option \<Rightarrow> string \<Rightarrow> (string \<times> attr) list \<Rightarrow>
     (string \<times> pyval) list \<Rightarrow> error + heap \<times> Nanomongo" where
  "DocumentMeta_init valid_client h inherited name dct kwargs =
     (case build_fields h inherited dct of
        Inl e \<Rightarrow> Inl e
      | Inr (h', nm) \<Rightarrow>
          (case bind_storage valid_client nm name kwargs of
             Inl e \<Rightarrow> Inl e
           | Inr nm' \<Rightarrow> Inr (h', nm')))"

text \<open>The Field declarations of a class namespace, in order.\<close>

fun declared :: "(string \<times> attr) list \<Rightarrow> fields_dict" where
  "declared [] = []"
| "declared ((k, FieldAttr f) # xs) = (k, f) # declared xs"
| "declared ((k, OtherAttr v) # xs) = declared xs"

section \<open>class BaseDocument\<close>

text \<open>A document is a dict with string keys: the instance itself.\<close>

type_synonym doc = "(string \<times> pyval) list"

text \<open>
  The keyword arguments of the call, as the dict \<^verbatim>\<open>kwargs\<close> that the body of
  \<^verbatim>\<open>__init__\<close> then extends with the items of the positional mapping.
\<close>

definition kw_items :: "(string \<times> pyval) list \<Rightarrow> (pyval \<times> pyval) list" where
  "kw_items kwargs = map (\<lambda>(k, v). (PStr k, v)) kwargs"

text \<open>
  \<^verbatim>\<open>for field_name, field_value in args[0].items():
      if field_name not in kwargs: kwargs[field_name] = field_value\<close>
\<close>

fun merge_args :: "('k \<times> 'v) list \<Rightarrow> ('k \<times> 'v) list \<Rightarrow> ('k \<times> 'v) list" where
  "merge_args [] kwargs = kwargs"
| "merge_args ((field_name, field_value) # items) kwargs =
     merge_args items
       (if field_name \<notin> fst ` set kwargs then AList.update field_name field_value kwargs
        else kwargs)"

text \<open>
  Passing a dict as \<^verbatim>\<open>**kwargs\<close>: every key must be a string, or the call raises
  \<^verbatim>\<open>TypeError\<close> (keywords must be strings). \<open>as_keywords\<close> is the keyword list, or
  \<open>None\<close> when some key is not a string.
\<close>

fun as_keywords :: "(pyval \<times> pyval) list \<Rightarrow> (string \<times> pyval) list option" where
  "as_keywords [] = Some []"
| "as_keywords ((PStr s, v) # items) =
     (case as_keywords items of None \<Rightarrow> None | Some kw \<Rightarrow> Some ((s, v) # kw))"
| "as_keywords ((k, v) # items) = None"

text \<open>The items of a dict whose keys are strings.\<close>

fun str_items :: "(pyval \<times> pyval) list \<Rightarrow> (string \<times> pyval) list" where
  "str_items [] = []"
| "str_items ((PStr s, v) # items) = (s, v) # str_items items"
| "str_items ((k, v) # items) = str_items items"

text \<open>Storing a sequence of items into a dict, one \<^verbatim>\<open>d[k] = v\<close> after the other.\<close>

fun dict_update :: "doc \<Rightarrow> (string \<times> pyval) list \<Rightarrow> doc" where
  "dict_update self [] = self"
| "dict_update self ((k, v) # items) = dict_update (AList.update k v self) items"

text \<open>
  The built-in \<^verbatim>\<open>dict.__init__\<close> on the new, empty instance, once the keywords have been
  accepted: the items of the one positional mapping, then the keyword items; more than
  one positional argument is the built-in's \<^verbatim>\<open>TypeError\<close> (whose text also gives the
  number of arguments). Where \<^verbatim>\<open>__init__\<close> calls it, every key of the positional mapping
  is a key of \<^verbatim>\<open>kwargs\<close> and hence a string.
\<close>

fun dict_init :: "pyval list \<Rightarrow> (string \<times> pyval) list \<Rightarrow> error + doc" where
  "dict_init [] kwargs = Inr (dict_update [] kwargs)"
| "dict_init [a] kwargs = Inr (dict_update (dict_update [] (str_items (dict_items a))) kwargs)"
| "dict_init (a # b # rest) kwargs = Inl (TypeError ''dict expected at most 1 argument'')"

text \<open>
  \<^verbatim>\<open>for field_name, field in self.nanomongo.fields.items():
      if hasattr(field, 'default_value'):
          val = field.default_value
          self[field_name] = val() if callable(val) else val\<close>
  A provider that raises ends the construction with its error.
\<close>

fun set_defaults :: "fields_dict \<Rightarrow> doc \<Rightarrow> error + doc" where
  "set_defaults [] self = Inr self"
| "set_defaults ((field_name, field) # fs) self =
     (case default_value field of
        None \<Rightarrow> set_defaults fs self
      | Some val \<Rightarrow>
          (case materialise val of
             Inl e \<Rightarrow> Inl e
           | Inr x \<Rightarrow> set_defaults fs (AList.update field_name x self)))"

text \<open>
  \<^verbatim>\<open>for field_name in kwargs:
      if self.nanomongo.has_field(field_name):
          self.nanomongo.validate(field_name, kwargs[field_name])
          self[field_name] = kwargs[field_name]
      else: raise ExtraFieldError(...)\<close>
\<close>

fun set_kwargs ::
  "validator \<Rightarrow> heap \<Rightarrow> Nanomongo \<Rightarrow> (string \<times> pyval) list \<Rightarrow> doc \<Rightarrow> error + doc" where
  "set_kwargs vld h nm [] self = Inr self"
| "set_kwargs vld h nm ((field_name, v) # items) self =
     (if has_field h nm field_name
      then (case Nanomongo_validate vld h nm field_name v of
              Inl e \<Rightarrow> Inl e
            | Inr r \<Rightarrow> set_kwargs vld h nm items (AList.update field_name v self))
      else Inl (ExtraFieldError field_name v))"

text \<open>
  Lines 144 to 155 of \<^verbatim>\<open>BaseDocument.__init__\<close>, with the merged \<^verbatim>\<open>kwargs\<close>. The call
  \<^verbatim>\<open>dict.__init__(self, *args, **kwargs)\<close> of line 144 first unpacks \<^verbatim>\<open>kwargs\<close> as
  keywords, which fails on a key that is not a string.
\<close>

definition construct ::
  "validator \<Rightarrow> heap \<Rightarrow> Nanomongo \<Rightarrow> pyval list \<Rightarrow> (pyval \<times> pyval) list \<Rightarrow> error + doc" where
  "construct vld h nm args kwargs =
     (case as_keywords kwargs of
        None \<Rightarrow> Inl (TypeError ''keywords must be strings'')
      | Some kw \<Rightarrow>
          (case dict_init args kw of
             Inl e \<Rightarrow> Inl e
           | Inr self \<Rightarrow>
               (case set_defaults (cells h (fields_ref nm)) self of
                  Inl e \<Rightarrow> Inl e
                | Inr self' \<Rightarrow> set_kwargs vld h nm kw self')))"

text \<open>
  \<^verbatim>\<open>BaseDocument.__init__(self, *args, **kwargs)\<close>, called with the positional arguments
  \<open>args\<close> and the keyword arguments \<open>kwargs\<close>. A keyword named \<^verbatim>\<open>self\<close> cannot be
  bound: the call raises \<^verbatim>\<open>TypeError\<close> (multiple values for argument self) before the
  body runs.
\<close>

definition BaseDocument_init ::
  "validator \<Rightarrow> heap \<Rightarrow> Nanomongo \<Rightarrow> pyval list \<Rightarrow> (string \<times> pyval) list \<Rightarrow> error + doc" where
  "BaseDocument_init vld h nm args kwargs =
     (if ''self'' \<in> fst ` set kwargs
      then Inl (TypeError ''__init__() got multiple values for argument self'')
      else case args of
        [] \<Rightarrow> construct vld h nm args (kw_items kwargs)
      | a # rest \<Rightarrow>
          if \<not> is_dict a then Inl (TypeError ''dict or dict subclass argument expected'')
          else construct vld h nm args (merge_args (dict_items a) (kw_items kwargs)))"

text \<open>\<^verbatim>\<open>BaseDocument.validate\<close>: \<^verbatim>\<open>pass\<close>. A subclass may override it.\<close>

definition BaseDocument_validate :: "doc \<Rightarrow> error + pyval" where
  "BaseDocument_validate self = Inr PNone"

text \<open>The first loop of \<^verbatim>\<open>validate_all\<close>: undeclared keys of the instance.\<close>

fun check_extra :: "heap \<Rightarrow> Nanomongo \<Rightarrow> doc \<Rightarrow> error option" where
  "check_extra h nm [] = None"
| "check_extra h nm ((field, v) # items) =
     (if \<not> has_field h nm field then Some (ValidationError (ExtraFieldMsg field v))
      else check_extra h nm items)"

text \<open>The second loop: validators of the present fields, required fields that are absent.\<close>

fun check_fields :: "validator \<Rightarrow> fields_dict \<Rightarrow> doc \<Rightarrow> error option" where
  "check_fields vld [] self = None"
| "check_fields vld ((field_name, field) # fs) self =
     (case map_of self field_name of
        Some v \<Rightarrow>
          (case vld field v field_name of
             Inl e \<Rightarrow> Some e
           | Inr r \<Rightarrow> check_fields vld fs self)
      | None \<Rightarrow>
          if required field then Some (ValidationError (RequiredMissingMsg field_name))
          else check_fields vld fs self)"

text \<open>\<open>hook\<close> is the instance's \<^verbatim>\<open>validate\<close> method.\<close>

definition validate_all ::
  "validator \<Rightarrow> (doc \<Rightarrow> error + pyval) \<Rightarrow> heap \<Rightarrow> Nanomongo \<Rightarrow> doc \<Rightarrow> error + pyval" where
  "validate_all vld hook h nm self =
     (case check_extra h nm self of
        Some e \<Rightarrow> Inl e
      | None \<Rightarrow>
          (case check_fields vld (cells h (fields_ref nm)) self of
             Some e \<Rightarrow> Inl e
           | None \<Rightarrow> hook self))"

text \<open>
  \<^verbatim>\<open>save\<close> makes one call into the client library,
  \<^verbatim>\<open>collection.save(self, **kwargs)\<close>, and returns its result. The model returns the
  call: the collection, the document handed over and the keyword arguments passed on.
\<close>

datatype store_call = SaveCall handle doc "(string \<times> pyval) list"

definition save ::
  "validator \<Rightarrow> (doc \<Rightarrow> error + pyval) \<Rightarrow> heap \<Rightarrow> Nanomongo \<Rightarrow> doc \<Rightarrow> (string \<times> pyval) list \<Rightarrow>
     error + store_call" where
  "save vld hook h nm self kwargs =
     (case validate_all vld hook h nm self of
        Inl e \<Rightarrow> Inl e
      | Inr r \<Rightarrow>
          (case get_collection nm of
             Inl e \<Rightarrow> Inl e
           | Inr coll \<Rightarrow> Inr (SaveCall coll self kwargs)))"

section \<open>Auxiliary notions\<close>

text \<open>
  The ancestors of a list of bases: every class other than \<^verbatim>\<open>object\<close> that is one of the
  bases or a base of an ancestor.
\<close>

inductive_set ancestors :: "pyclass list \<Rightarrow> pyclass set" for bases :: "pyclass list" where
  base: "b \<in> set bases \<Longrightarrow> b \<noteq> Object \<Longrightarrow> b \<in> ancestors bases"
| up: "Class i bs \<in> ancestors bases \<Longrightarrow> c \<in> set bs \<Longrightarrow> c \<noteq> Object \<Longrightarrow> c \<in> ancestors bases"

text \<open>
  Used in the proofs only: the dict obtained by storing the items of \<open>own\<close>, in order,
  into \<open>base\<close>, and a dict after the \<^verbatim>\<open>_id\<close> injection.
\<close>

definition overlay :: "fields_dict \<Rightarrow> fields_dict \<Rightarrow> fields_dict" where
  "overlay own base = AList.updates (map fst own) (map snd own) base"

definition with_id :: "fields_dict \<Rightarrow> fields_dict" where
  "with_id fs = (if ''_id'' \<in> fst ` set fs then fs else AList.update ''_id'' id_field fs)"

text \<open>
  The dict \<^verbatim>\<open>kwargs\<close> of \<^verbatim>\<open>BaseDocument.__init__\<close> after the merge of a positional mapping
  (lines 139 to 142): the values the caller supplied, in the order in which the last
  loop of \<^verbatim>\<open>__init__\<close> goes through them.
\<close>

definition merged_kwargs :: "pyval list \<Rightarrow> (string \<times> pyval) list \<Rightarrow> (pyval \<times> pyval) list" where
  "merged_kwargs args kwargs =
     (case args of
        [] \<Rightarrow> kw_items kwargs
      | a # rest \<Rightarrow> merge_args (dict_items a) (kw_items kwargs))"

text \<open>No default provider of the schema raises.\<close>

definition raises :: "default option \<Rightarrow> bool" where
  "raises d = (case d of Some (Provider (Inl e)) \<Rightarrow> True | _ \<Rightarrow> False)"

definition providers_return :: "fields_dict \<Rightarrow> bool" where
  "providers_return fs = list_all (\<lambda>(n, f). \<not> raises (default_value f)) fs"

section \<open>Example data\<close>

definition ex_nm_unset :: Nanomongo where
  "ex_nm_unset = \<lparr>fields_ref = 0, client = PNone, database = PStr ''nanotestdb'', collection = PStr ''doc''\<rparr>"

definition ex_nm_nodb :: Nanomongo where
  "ex_nm_nodb = \<lparr>fields_ref = 0, client = PObj 7, database = PNone, collection = PNone\<rparr>"

definition ex_nm_nocol :: Nanomongo where
  "ex_nm_nocol = \<lparr>fields_ref = 0, client = PObj 7, database = PStr ''nanotestdb'', collection = PStr ''''\<rparr>"

definition ex_nm_bound :: Nanomongo where
  "ex_nm_bound = \<lparr>fields_ref = 0, client = PObj 7, database = PStr ''nanotestdb'', collection = PStr ''doc''\<rparr>"

definition ex_valid_client :: "pyval \<Rightarrow> bool" where
  "ex_valid_client c = (case c of PObj n \<Rightarrow> True | _ \<Rightarrow> False)"

definition ex_heap :: heap where
  "ex_heap = \<lparr>cells = (\<lambda>a. []), next_free = 0\<rparr>"

definition foo_field :: Field where
  "foo_field = \<lparr>data_type = TStr, required = True, default_value = None\<rparr>"

definition bar_field :: Field where
  "bar_field = \<lparr>data_type = TInt, required = False, default_value = None\<rparr>"

definition ex_dct :: "(string \<times> attr) list" where
  "ex_dct = [(''__module__'', OtherAttr (PStr ''test'')), (''foo'', FieldAttr foo_field),
             (''bar'', FieldAttr bar_field)]"

definition ex_kwargs :: "(string \<times> pyval) list" where
  "ex_kwargs = [(''dot_notation'', PBool True), (''client'', PObj 7), (''db'', PStr ''nanotestdb'')]"

definition ex_doc_fields :: fields_dict where
  "ex_doc_fields = [(''foo'', foo_field), (''bar'', bar_field), (''_id'', id_field)]"

definition ex_heap1 :: heap where
  "ex_heap1 = \<lparr>cells = (\<lambda>a. [])(0 := ex_doc_fields), next_free = 1\<rparr>"

definition ex_nm :: Nanomongo where
  "ex_nm = \<lparr>fields_ref = 0, client = PObj 7, database = PStr ''nanotestdb'', collection = PStr ''doc''\<rparr>"

definition foo_override :: Field where
  "foo_override = \<lparr>data_type = TInt, required = False, default_value = Some (Value (PInt 0))\<rparr>"

definition moo_field :: Field where
  "moo_field = \<lparr>data_type = TList, required = True, default_value = Some (Provider (Inr (PList [])))\<rparr>"

definition ex_sub_dct :: "(string \<times> attr) list" where
  "ex_sub_dct = [(''foo'', FieldAttr foo_override), (''limit'', OtherAttr (PInt 10)),
                 (''moo'', FieldAttr moo_field)]"

definition ex_sub_fields :: fields_dict where
  "ex_sub_fields = [(''foo'', foo_override), (''bar'', bar_field), (''_id'', id_field), (''moo'', moo_field)]"

definition ex_heap2 :: heap where
  "ex_heap2 = \<lparr>cells = (\<lambda>a. [])(0 := ex_doc_fields, 1 := ex_sub_fields), next_free = 2\<rparr>"

definition ex_nm_sub :: Nanomongo where
  "ex_nm_sub = \<lparr>fields_ref = 1, client = PNone, database = PNone, collection = PStr ''sub''\<rparr>"

definition cls_mixin :: pyclass where "cls_mixin = Class 0 [Object]"

definition cls_A :: pyclass where "cls_A = Class 1 [Object]"

definition cls_B :: pyclass where "cls_B = Class 2 [cls_A]"

definition cls_C :: pyclass where "cls_C = Class 3 [cls_A, Object]"

text \<open>
  An example of the validation capability: a value is accepted, unchanged, when it is
  an instance of the type the Field was declared with, and rejected with a
  \<^verbatim>\<open>ValidationError\<close> otherwise.
\<close>

fun isinstance_of :: "pytype \<Rightarrow> pyval \<Rightarrow> bool" where
  "isinstance_of TStr (PStr s) = True"
| "isinstance_of TInt (PInt i) = True"
| "isinstance_of TInt (PBool b) = True"
| "isinstance_of TList (PList xs) = True"
| "isinstance_of TObjectId (PObj n) = True"
| "isinstance_of t v = False"

definition ex_vld :: validator where
  "ex_vld f v name =
     (if isinstance_of (data_type f) v then Inr v else Inl (ValidationError (ValidatorMsg name)))"

definition count_field :: Field where
  "count_field = \<lparr>data_type = TInt, required = True, default_value = Some (Value (PStr ''n/a''))\<rparr>"

definition ex_heap_d :: heap where
  "ex_heap_d = \<lparr>cells = (\<lambda>a. [])(0 := [(''_id'', id_field), (''count'', count_field), (''tags'', moo_field)]),
                 next_free = 1\<rparr>"

text \<open>
  The schemas of \<^verbatim>\<open>BaseDocument\<close> (address 0) and of a class \<^verbatim>\<open>Doc(BaseDocument)\<close> with
  the fields \<^verbatim>\<open>foo\<close> and \<^verbatim>\<open>bar\<close> (address 1): the inherited \<^verbatim>\<open>_id\<close> comes first.
\<close>

definition ex_heap_r :: heap where
  "ex_heap_r = \<lparr>cells = (\<lambda>a. [])(0 := [(''_id'', id_field)],
                   1 := [(''_id'', id_field), (''foo'', foo_field), (''bar'', bar_field)]),
                 next_free = 2\<rparr>"

definition ex_nm_r :: Nanomongo where
  "ex_nm_r = \<lparr>fields_ref = 1, client = PObj 7, database = PStr ''nanotestdb'', collection = PStr ''doc''\<rparr>"

definition ex_saved_doc :: doc where
  "ex_saved_doc = [(''foo'', PStr ''x''), (''bar'', PInt 42), (''moo'', PList []), (''_id'', PObj 99)]"

definition ex_mutated_doc :: doc where
  "ex_mutated_doc = [(''foo'', PStr ''y''), (''moo'', PList []), (''_id'', PObj 99)]"

definition ex_nm3 :: Nanomongo where
  "ex_nm3 = \<lparr>fields_ref = 2, client = PObj 7, database = PStr ''nanotestdb'', collection = PStr ''doc''\<rparr>"

definition ex_heap3 :: heap where
  "ex_heap3 = \<lparr>cells = (\<lambda>a. [])(2 := [(''foo'', foo_field), (''bar'', bar_field),
     (''moo'', \<lparr>data_type = TList, required = True, default_value = None\<rparr>), (''_id'', id_field)]),
     next_free = 3\<rparr>"

section \<open>The field store\<close>

lemma next_free_store_fields: "next_free (store_fields h a xs) = next_free h"
  by (induction h a xs rule: store_fields.induct) (simp_all add: dict_setitem_def)

lemma cells_store_fields:
  "cells (store_fields h a xs) =
     (cells h)(a := AList.updates (map fst (declared xs)) (map snd (declared xs)) (cells h a))"
  by (induction h a xs rule: store_fields.induct) (auto simp: dict_setitem_def fun_eq_iff)

lemma declared_FieldAttr: "declared (map (\<lambda>(k, f). (k, FieldAttr f)) xs) = xs"
  by (induction xs) auto

lemma store_fields_eq:
  "store_fields h a xs =
     h\<lparr>cells := (cells h)(a := AList.updates (map fst (declared xs)) (map snd (declared xs)) (cells h a))\<rparr>"
  by (induction h a xs rule: store_fields.induct) (auto simp: dict_setitem_def fun_eq_iff)

lemma build_fields_None:
  "build_fields h None dct =
     Inr (h\<lparr>cells := (cells h)(next_free h := with_id (overlay (declared dct) [])),
            next_free := Suc (next_free h)\<rparr>,
          \<lparr>fields_ref = next_free h, client = PNone, database = PNone, collection = PNone\<rparr>)"
  by (simp add: build_fields_def from_dicts_def new_dict_def Nanomongo_init_def store_fields_eq
      has_field_def dict_setitem_def with_id_def overlay_def)

lemma build_fields_Some:
  "fields_ref p \<noteq> next_free h \<Longrightarrow> build_fields h (Some p) dct =
     Inr (h\<lparr>cells := (cells h)(next_free h :=
               with_id (overlay (declared dct) (overlay (cells h (fields_ref p)) []))),
            next_free := Suc (next_free h)\<rparr>,
          \<lparr>fields_ref = next_free h, client = PNone, database = PNone, collection = PNone\<rparr>)"
  by (simp add: build_fields_def from_dicts_def new_dict_def Nanomongo_init_def store_fields_eq
      has_field_def dict_setitem_def with_id_def overlay_def declared_FieldAttr)

lemma build_fields_alias:
  "fields_ref p = next_free h \<Longrightarrow> build_fields h (Some p) dct =
     Inr (h\<lparr>cells := (cells h)(next_free h := with_id (overlay (declared dct) [])),
            next_free := Suc (next_free h)\<rparr>,
          \<lparr>fields_ref = next_free h, client = PNone, database = PNone, collection = PNone\<rparr>)"
  by (simp add: build_fields_def from_dicts_def new_dict_def Nanomongo_init_def store_fields_eq
      has_field_def dict_setitem_def with_id_def overlay_def declared_FieldAttr)

lemma map_of_rev_distinct: "distinct (map fst xs) \<Longrightarrow> map_of (rev xs) = map_of xs"
  by (subst map_of_inject_set) (simp_all flip: rev_map)

lemma map_of_overlay:
  "distinct (map fst own) \<Longrightarrow> map_of (overlay own base) = map_of base ++ map_of own"
  by (simp add: overlay_def AList.updates_conv' map_upds_def zip_map_fst_snd map_of_rev_distinct)

lemma distinct_overlay: "distinct (map fst base) \<Longrightarrow> distinct (map fst (overlay own base))"
  by (simp add: overlay_def AList.distinct_updates)

lemma keys_overlay: "fst ` set (overlay own base) = fst ` set own \<union> fst ` set base"
  by (simp add: overlay_def dom_map_of_conv_image_fst [symmetric] AList.updates_conv' dom_map_upds)

lemma distinct_with_id: "distinct (map fst fs) \<Longrightarrow> distinct (map fst (with_id fs))"
  by (simp add: with_id_def AList.distinct_update)

lemma id_in_with_id: "''_id'' \<in> fst ` set (with_id fs)"
  by (simp add: with_id_def AList.dom_update)

lemma map_of_with_id:
  "map_of (with_id fs) = (if ''_id'' \<in> dom (map_of fs) then map_of fs else (map_of fs)(''_id'' \<mapsto> id_field))"
  by (simp add: with_id_def AList.update_conv' dom_map_of_conv_image_fst)

lemma distinct_declared: "distinct (map fst dct) \<Longrightarrow> distinct (map fst (declared dct))"
proof (induction dct rule: declared.induct)
  case (2 k f xs)
  have "fst ` set (declared xs) \<subseteq> fst ` set xs"
    by (induction xs rule: declared.induct) auto
  with 2 show ?case by auto
qed simp_all

lemma count_key_distinct:
  "distinct (map fst xs) \<Longrightarrow> k \<in> fst ` set xs \<Longrightarrow> length (filter (\<lambda>p. fst p = k) xs) = 1"
proof (induction xs)
  case (Cons x xs)
  show ?case
  proof (cases "fst x = k")
    case True
    with Cons.prems have "filter (\<lambda>p. fst p = k) xs = []"
      by (auto simp: filter_empty_conv image_iff)
    with True show ?thesis by simp
  next
    case False
    with Cons show ?thesis by auto
  qed
qed simp

section \<open>Schema building\<close>

lemma lower_Doc: "lower ''Doc'' = ''doc''"
  by code_simp

lemma bind_storage_fields_ref:
  "bind_storage valid_client nm name kwargs = Inr nm' \<Longrightarrow> fields_ref nm' = fields_ref nm"
  by (auto simp: bind_storage_def set_client_def set_db_def set_collection_def
      split: option.splits sum.splits if_splits)

lemma DocumentMeta_init_Inr:
  assumes "DocumentMeta_init valid_client h inherited name dct kwargs = Inr (h', nm)"
  shows "\<exists>nm0. build_fields h inherited dct = Inr (h', nm0) \<and> fields_ref nm = fields_ref nm0"
  using assms
  by (auto simp: DocumentMeta_init_def split: sum.splits dest: bind_storage_fields_ref)

lemma build_fields_cells:
  assumes "build_fields h inherited dct = Inr (h', nm0)"
  shows "fields_ref nm0 = next_free h \<and>
    cells h' = (cells h)(next_free h := with_id (overlay (declared dct) (overlay
      (case inherited of None \<Rightarrow> []
       | Some p \<Rightarrow> if fields_ref p = next_free h then [] else cells h (fields_ref p)) [])))"
proof (cases inherited)
  case None
  with assms show ?thesis
    by (auto simp: build_fields_None overlay_def)
next
  case (Some p)
  with assms show ?thesis
    by (cases "fields_ref p = next_free h")
      (auto simp: build_fields_alias build_fields_Some overlay_def)
qed

text \<open>
  C1. Whenever a type declaration succeeds, the field mapping of its schema has exactly
  one entry named \<^verbatim>\<open>_id\<close>. If neither the type's own declarations nor the inherited
  mapping has a Field of that name, the entry is the injected one: ObjectId, not
  required, no default.
\<close>

theorem DocumentMeta_init_id_field:
  assumes "DocumentMeta_init valid_client h inherited name dct kwargs = Inr (h', nm)"
  shows "length (filter (\<lambda>p. fst p = ''_id'') (cells h' (fields_ref nm))) = 1 \<and>
         has_field h' nm ''_id'' \<and>
         (map_of (declared dct) ''_id'' = None \<and>
          (\<forall>p. inherited = Some p \<longrightarrow> map_of (cells h (fields_ref p)) ''_id'' = None) \<longrightarrow>
            map_of (cells h' (fields_ref nm)) ''_id'' =
              Some \<lparr>data_type = TObjectId, required = False, default_value = None\<rparr>)"
proof -
  from DocumentMeta_init_Inr [OF assms] obtain nm0
    where b: "build_fields h inherited dct = Inr (h', nm0)"
      and r: "fields_ref nm = fields_ref nm0"
    by blast
  define base where "base = (case inherited of None \<Rightarrow> []
       | Some p \<Rightarrow> if fields_ref p = next_free h then [] else cells h (fields_ref p))"
  let ?m = "overlay (declared dct) (overlay base [])"
  from build_fields_cells [OF b] have a: "fields_ref nm0 = next_free h"
    and c: "cells h' = (cells h)(next_free h := with_id ?m)"
    by (simp_all add: base_def)
  have cell: "cells h' (fields_ref nm) = with_id ?m"
    using r a c by simp
  have d: "distinct (map fst (with_id ?m))"
    by (simp add: distinct_with_id distinct_overlay)
  have one: "length (filter (\<lambda>p. fst p = ''_id'') (cells h' (fields_ref nm))) = 1"
    unfolding cell using d id_in_with_id by (rule count_key_distinct)
  have has: "has_field h' nm ''_id''"
    unfolding has_field_def cell by (rule id_in_with_id)
  have inj: "map_of (cells h' (fields_ref nm)) ''_id'' = Some id_field"
    if nd: "map_of (declared dct) ''_id'' = None"
      and np: "\<forall>p. inherited = Some p \<longrightarrow> map_of (cells h (fields_ref p)) ''_id'' = None"
  proof -
    from np have "map_of base ''_id'' = None"
      by (auto simp: base_def split: option.splits)
    with nd have "''_id'' \<notin> fst ` set ?m"
      by (simp add: keys_overlay map_of_eq_None_iff)
    then show ?thesis
      unfolding cell by (simp add: with_id_def AList.update_conv')
  qed
  from one has inj show ?thesis
    by (simp add: id_field_def)
qed

theorem DocumentMeta_init_id_field_witness:
  "DocumentMeta_init ex_valid_client ex_heap None ''Doc'' ex_dct ex_kwargs = Inr (ex_heap1, ex_nm) \<and>
   length (filter (\<lambda>p. fst p = ''_id'') (cells ex_heap1 (fields_ref ex_nm))) = 1 \<and>
   has_field ex_heap1 ex_nm ''_id'' \<and>
   map_of (declared ex_dct) ''_id'' = None \<and>
   map_of (cells ex_heap1 (fields_ref ex_nm)) ''_id'' =
     Some \<lparr>data_type = TObjectId, required = False, default_value = None\<rparr>"
proof -
  have init: "DocumentMeta_init ex_valid_client ex_heap None ''Doc'' ex_dct ex_kwargs = Inr (ex_heap1, ex_nm)"
    by (simp add: DocumentMeta_init_def build_fields_None bind_storage_def set_client_def set_db_def
        set_collection_def lower_Doc ex_valid_client_def ex_heap_def ex_dct_def ex_kwargs_def
        ex_heap1_def ex_nm_def ex_doc_fields_def with_id_def overlay_def)
  have nd: "map_of (declared ex_dct) ''_id'' = None"
    by (simp add: ex_dct_def)
  from DocumentMeta_init_id_field [OF init] init nd show ?thesis
    by simp
qed

lemma lower_Sub: "lower ''Sub'' = ''sub''"
  by code_simp

text \<open>
  C2. For a subtype of a parent with a schema (whose mapping is allocated in the store),
  the subtype's field mapping is the parent's overlaid with the subtype's own Field
  declarations: an own declaration is taken as it is, an inherited field that is not
  redeclared is kept. The mapping lives at a fresh address, and every dict that was in
  the store before, the parent's among them, is unchanged.
\<close>

theorem DocumentMeta_init_inherits:
  assumes "DocumentMeta_init valid_client h (Some p) name dct kwargs = Inr (h', nm)"
    and "fields_ref p < next_free h"
    and "distinct (map fst (cells h (fields_ref p)))"
    and "distinct (map fst dct)"
  shows "map_of (cells h' (fields_ref nm)) =
           (let m = map_of (cells h (fields_ref p)) ++ map_of (declared dct)
            in if ''_id'' \<in> dom m then m else m(''_id'' \<mapsto> id_field)) \<and>
         (\<forall>k f. map_of (declared dct) k = Some f \<longrightarrow>
                map_of (cells h' (fields_ref nm)) k = Some f) \<and>
         (\<forall>k f. map_of (declared dct) k = None \<and> map_of (cells h (fields_ref p)) k = Some f \<longrightarrow>
                map_of (cells h' (fields_ref nm)) k = Some f) \<and>
         next_free h \<le> fields_ref nm \<and> fields_ref nm \<noteq> fields_ref p \<and>
         (\<forall>a. a < next_free h \<longrightarrow> cells h' a = cells h a) \<and>
         cells h' (fields_ref p) = cells h (fields_ref p)"
proof -
  from DocumentMeta_init_Inr [OF assms(1)] obtain nm0
    where b: "build_fields h (Some p) dct = Inr (h', nm0)"
      and r: "fields_ref nm = fields_ref nm0"
    by blast
  let ?own = "declared dct" and ?par = "cells h (fields_ref p)"
  let ?m = "map_of ?par ++ map_of ?own"
  from assms(2) have ne: "fields_ref p \<noteq> next_free h" by simp
  with build_fields_cells [OF b] have a: "fields_ref nm = next_free h"
    and c: "cells h' = (cells h)(next_free h := with_id (overlay ?own (overlay ?par [])))"
    by (simp_all add: r)
  have own: "distinct (map fst ?own)"
    using assms(4) by (rule distinct_declared)
  have m: "map_of (overlay ?own (overlay ?par [])) = ?m"
    using own assms(3) by (simp add: map_of_overlay)
  have cell: "map_of (cells h' (fields_ref nm)) =
      (if ''_id'' \<in> dom ?m then ?m else ?m(''_id'' \<mapsto> id_field))"
    using a c m by (simp add: map_of_with_id)
  have wins: "map_of (cells h' (fields_ref nm)) k = Some f" if "map_of ?own k = Some f" for k f
    using that unfolding cell by (auto simp: map_add_Some_iff)
  have keeps: "map_of (cells h' (fields_ref nm)) k = Some f"
    if "map_of ?own k = None" "map_of ?par k = Some f" for k f
    using that unfolding cell by (auto simp: map_add_Some_iff)
  have old: "cells h' a' = cells h a'" if "a' < next_free h" for a'
    using that c by simp
  from cell wins keeps a ne old assms(2) show ?thesis
    by (simp add: Let_def)
qed

theorem DocumentMeta_init_inherits_witness:
  "DocumentMeta_init ex_valid_client ex_heap1 (Some ex_nm) ''Sub'' ex_sub_dct [] = Inr (ex_heap2, ex_nm_sub) \<and>
   fields_ref ex_nm < next_free ex_heap1 \<and>
   distinct (map fst (cells ex_heap1 (fields_ref ex_nm))) \<and>
   distinct (map fst ex_sub_dct) \<and>
   map_of (cells ex_heap2 (fields_ref ex_nm_sub)) ''foo'' = Some foo_override \<and>
   map_of (cells ex_heap2 (fields_ref ex_nm_sub)) ''bar'' = Some bar_field \<and>
   fields_ref ex_nm_sub \<noteq> fields_ref ex_nm \<and>
   cells ex_heap2 (fields_ref ex_nm) = cells ex_heap1 (fields_ref ex_nm)"
proof -
  have init: "DocumentMeta_init ex_valid_client ex_heap1 (Some ex_nm) ''Sub'' ex_sub_dct [] =
      Inr (ex_heap2, ex_nm_sub)"
    by (simp add: DocumentMeta_init_def build_fields_Some bind_storage_def set_collection_def
        lower_Sub ex_heap1_def ex_nm_def ex_sub_dct_def ex_heap2_def ex_nm_sub_def
        ex_doc_fields_def ex_sub_fields_def with_id_def overlay_def fun_upd_twist)
  have alloc: "fields_ref ex_nm < next_free ex_heap1"
    by (simp add: ex_nm_def ex_heap1_def)
  have dp: "distinct (map fst (cells ex_heap1 (fields_ref ex_nm)))"
    by (simp add: ex_nm_def ex_heap1_def ex_doc_fields_def)
  have dd: "distinct (map fst ex_sub_dct)"
    by (simp add: ex_sub_dct_def)
  have foo: "map_of (declared ex_sub_dct) ''foo'' = Some foo_override"
    by (simp add: ex_sub_dct_def)
  have bar: "map_of (declared ex_sub_dct) ''bar'' = None \<and>
      map_of (cells ex_heap1 (fields_ref ex_nm)) ''bar'' = Some bar_field"
    by (simp add: ex_sub_dct_def ex_nm_def ex_heap1_def ex_doc_fields_def)
  note sub = DocumentMeta_init_inherits [OF init alloc dp dd]
  from sub foo have 1: "map_of (cells ex_heap2 (fields_ref ex_nm_sub)) ''foo'' = Some foo_override"
    by blast
  from sub bar have 2: "map_of (cells ex_heap2 (fields_ref ex_nm_sub)) ''bar'' = Some bar_field"
    by blast
  from sub have 3: "fields_ref ex_nm_sub \<noteq> fields_ref ex_nm"
    and 4: "cells ex_heap2 (fields_ref ex_nm) = cells ex_heap1 (fields_ref ex_nm)"
    by blast+
  from init alloc dp dd 1 2 3 4 show ?thesis
    by blast
qed

section \<open>Resolving the collection\<close>

text \<open>
  C7. \<^verbatim>\<open>get_collection\<close> checks client, database and collection in that order and
  raises the \<^verbatim>\<open>ConfigurationError\<close> of the first one that is unset (false), whatever
  the later ones are; when all three are set it returns
  \<^verbatim>\<open>client[database][collection]\<close>.
\<close>

theorem get_collection_order:
  "(\<not> truthy (client nm) \<longrightarrow>
      get_collection nm = Inl (ConfigurationError ''Mongo client not set'')) \<and>
   (truthy (client nm) \<and> \<not> truthy (database nm) \<longrightarrow>
      get_collection nm = Inl (ConfigurationError ''db not set'')) \<and>
   (truthy (client nm) \<and> truthy (database nm) \<and> \<not> truthy (collection nm) \<longrightarrow>
      get_collection nm = Inl (ConfigurationError ''collection not set'')) \<and>
   (truthy (client nm) \<and> truthy (database nm) \<and> truthy (collection nm) \<longrightarrow>
      get_collection nm = Inr (Collection (client nm) (database nm) (collection nm)))"
  by (simp add: get_collection_def)

theorem get_collection_order_witness:
  "get_collection ex_nm_unset = Inl (ConfigurationError ''Mongo client not set'') \<and>
   get_collection ex_nm_nodb = Inl (ConfigurationError ''db not set'') \<and>
   get_collection ex_nm_nocol = Inl (ConfigurationError ''collection not set'') \<and>
   get_collection ex_nm_bound = Inr (Collection (PObj 7) (PStr ''nanotestdb'') (PStr ''doc''))"
  using get_collection_order [of ex_nm_unset] get_collection_order [of ex_nm_nodb]
    get_collection_order [of ex_nm_nocol] get_collection_order [of ex_nm_bound]
  by (simp add: ex_nm_unset_def ex_nm_nodb_def ex_nm_nocol_def ex_nm_bound_def)

section \<open>Linearizing the bases\<close>

lemma Object_notin_gen: "Object \<notin> set (get_bases_gen bases)"
  by (induction bases rule: get_bases_gen.induct) simp_all

lemma gen_append: "get_bases_gen (xs @ ys) = get_bases_gen xs @ get_bases_gen ys"
  by (induction xs rule: get_bases_gen.induct) simp_all

lemma gen_mem_bases:
  "b \<in> set bases \<Longrightarrow> b \<noteq> Object \<Longrightarrow> b \<in> set (get_bases_gen bases)"
  by (induction bases rule: get_bases_gen.induct) auto

lemma gen_closed:
  "Class i bs \<in> set (get_bases_gen bases) \<Longrightarrow> set (get_bases_gen bs) \<subseteq> set (get_bases_gen bases)"
  by (induction bases rule: get_bases_gen.induct) auto

lemma gen_subset_ancestors: "set (get_bases_gen bases) \<subseteq> ancestors bases"
proof (induction bases rule: get_bases_gen.induct)
  case 1
  show ?case by simp
next
  case (2 bases)
  have "ancestors bases \<subseteq> ancestors (Object # bases)"
  proof
    fix c assume "c \<in> ancestors bases"
    then show "c \<in> ancestors (Object # bases)"
      by induction (auto intro: ancestors.intros)
  qed
  with 2 show ?case by auto
next
  case (3 i bs bases)
  let ?all = "Class i bs # bases"
  have top: "Class i bs \<in> ancestors ?all"
    by (rule ancestors.base) simp_all
  have "ancestors bs \<subseteq> ancestors ?all"
  proof
    fix c assume "c \<in> ancestors bs"
    then show "c \<in> ancestors ?all"
    proof induction
      case (base b)
      with top show ?case by (auto intro: ancestors.up)
    next
      case (up j cs c)
      then show ?case by (auto intro: ancestors.up)
    qed
  qed
  moreover have "ancestors bases \<subseteq> ancestors ?all"
  proof
    fix c assume "c \<in> ancestors bases"
    then show "c \<in> ancestors ?all"
      by induction (auto intro: ancestors.intros)
  qed
  ultimately show ?case
    using 3 top by auto
qed

lemma ancestors_subset_gen: "ancestors bases \<subseteq> set (get_bases_gen bases)"
proof
  fix c assume "c \<in> ancestors bases"
  then show "c \<in> set (get_bases_gen bases)"
  proof induction
    case (base b)
    then show ?case by (rule gen_mem_bases)
  next
    case (up i bs c)
    from up.hyps(2,3) have "c \<in> set (get_bases_gen bs)" by (rule gen_mem_bases)
    with gen_closed [OF up.IH] show ?case by blast
  qed
qed

lemma set_gen: "set (get_bases_gen bases) = ancestors bases"
  using gen_subset_ancestors ancestors_subset_gen by blast

lemma remdups_snoc: "remdups (ys @ [x]) = filter (\<lambda>y. y \<noteq> x) (remdups ys) @ [x]"
  by (induction ys) auto

lemma first_seen_Cons:
  "rev (remdups (rev (x # xs))) = x # filter (\<lambda>y. y \<noteq> x) (rev (remdups (rev xs)))"
  by (simp add: remdups_snoc rev_filter)

lemma unique_bases_first_seen:
  "unique_bases seen xs = filter (\<lambda>x. x \<notin> set seen) (rev (remdups (rev xs)))"
proof (induction xs arbitrary: seen)
  case Nil
  show ?case by simp
next
  case (Cons x xs)
  let ?F = "rev (remdups (rev xs))"
  show ?case
  proof (cases "x \<in> set seen")
    case True
    have "filter (\<lambda>y. y \<notin> set seen) (filter (\<lambda>y. y \<noteq> x) ?F) = filter (\<lambda>y. y \<notin> set seen) ?F"
      unfolding filter_filter using True by (intro filter_cong) auto
    with True Cons [of seen] show ?thesis
      unfolding first_seen_Cons by simp
  next
    case False
    have "filter (\<lambda>y. y \<notin> set seen) (filter (\<lambda>y. y \<noteq> x) ?F) = filter (\<lambda>y. y \<notin> set (seen @ [x])) ?F"
      unfolding filter_filter by (intro filter_cong) auto
    with False Cons [of "seen @ [x]"] show ?thesis
      unfolding first_seen_Cons by simp
  qed
qed

text \<open>
  C9. For the plain tuple of bases that a class statement passes, \<^verbatim>\<open>_get_bases\<close> returns
  the depth-first enumeration of the bases and their ancestors with every class kept at
  its first occurrence only: the result has no duplicates, does not contain
  \<^verbatim>\<open>object\<close>, and its elements are exactly the ancestors. \<^verbatim>\<open>__new__\<close> puts the
  dot-notation mixin in front of that list when \<^verbatim>\<open>dot_notation\<close> is given and true and
  the mixin is not in the list, and leaves the list as it is otherwise.
\<close>

theorem get_bases_linearized:
  "get_bases (PlainTuple bases) = rev (remdups (rev (get_bases_gen bases))) \<and>
   distinct (get_bases (PlainTuple bases)) \<and>
   set (get_bases (PlainTuple bases)) = ancestors bases \<and>
   Object \<notin> set (get_bases (PlainTuple bases)) \<and>
   DocumentMeta_new mixin (PlainTuple bases) kwargs =
     (if (\<exists>v. map_of kwargs ''dot_notation'' = Some v \<and> truthy v) \<and>
         mixin \<notin> set (get_bases (PlainTuple bases))
      then mixin # get_bases (PlainTuple bases)
      else get_bases (PlainTuple bases))"
proof -
  have eq: "get_bases (PlainTuple bases) = rev (remdups (rev (get_bases_gen bases)))"
    by (simp add: unique_bases_first_seen)
  have new: "DocumentMeta_new mixin (PlainTuple bases) kwargs =
     (if (\<exists>v. map_of kwargs ''dot_notation'' = Some v \<and> truthy v) \<and>
         mixin \<notin> set (get_bases (PlainTuple bases))
      then mixin # get_bases (PlainTuple bases)
      else get_bases (PlainTuple bases))"
    by (cases "map_of kwargs ''dot_notation''") (simp_all add: DocumentMeta_new_def Let_def)
  from eq have "distinct (get_bases (PlainTuple bases))"
    and "set (get_bases (PlainTuple bases)) = ancestors bases"
    and "Object \<notin> set (get_bases (PlainTuple bases))"
    by (simp_all add: set_gen [symmetric] Object_notin_gen)
  with eq new show ?thesis by blast
qed

theorem get_bases_linearized_witness:
  "get_bases (PlainTuple [cls_B, Object, cls_C]) = [cls_B, cls_A, cls_C] \<and>
   ancestors [cls_B, Object, cls_C] = set [cls_B, cls_A, cls_C] \<and>
   DocumentMeta_new cls_mixin (PlainTuple [cls_B, Object, cls_C]) [(''dot_notation'', PBool True)] =
     [cls_mixin, cls_B, cls_A, cls_C] \<and>
   DocumentMeta_new cls_A (PlainTuple [cls_B, Object, cls_C]) [(''dot_notation'', PBool True)] =
     [cls_B, cls_A, cls_C] \<and>
   DocumentMeta_new cls_mixin (PlainTuple [cls_B, Object, cls_C]) [] = [cls_B, cls_A, cls_C]"
proof -
  let ?bases = "[cls_B, Object, cls_C]"
  have gen: "get_bases_gen ?bases = [cls_B, cls_A, cls_C, cls_A]"
    by (simp add: cls_A_def cls_B_def cls_C_def)
  have ne: "cls_mixin \<noteq> cls_A" "cls_mixin \<noteq> cls_B" "cls_mixin \<noteq> cls_C"
    "cls_A \<noteq> cls_B" "cls_A \<noteq> cls_C" "cls_B \<noteq> cls_C"
    by (simp_all add: cls_mixin_def cls_A_def cls_B_def cls_C_def)
  note lin = get_bases_linearized [of ?bases]
  from lin [of cls_mixin "[]"] have "get_bases (PlainTuple ?bases) = rev (remdups (rev (get_bases_gen ?bases)))"
    by (rule conjunct1)
  with ne have 1: "get_bases (PlainTuple ?bases) = [cls_B, cls_A, cls_C]"
    unfolding gen by simp
  from lin [of cls_mixin "[]"] have "set (get_bases (PlainTuple ?bases)) = ancestors ?bases"
    by blast
  then have 2: "ancestors ?bases = set [cls_B, cls_A, cls_C]"
    unfolding 1 by (rule sym)
  from lin [of cls_mixin "[(''dot_notation'', PBool True)]"]
  have "DocumentMeta_new cls_mixin (PlainTuple ?bases) [(''dot_notation'', PBool True)] =
     (if (\<exists>v. map_of [(''dot_notation'', PBool True)] ''dot_notation'' = Some v \<and> truthy v) \<and>
         cls_mixin \<notin> set (get_bases (PlainTuple ?bases))
      then cls_mixin # get_bases (PlainTuple ?bases) else get_bases (PlainTuple ?bases))"
    by blast
  with ne have 3: "DocumentMeta_new cls_mixin (PlainTuple ?bases) [(''dot_notation'', PBool True)] =
     [cls_mixin, cls_B, cls_A, cls_C]"
    unfolding 1 by simp
  from lin [of cls_A "[(''dot_notation'', PBool True)]"]
  have "DocumentMeta_new cls_A (PlainTuple ?bases) [(''dot_notation'', PBool True)] =
     (if (\<exists>v. map_of [(''dot_notation'', PBool True)] ''dot_notation'' = Some v \<and> truthy v) \<and>
         cls_A \<notin> set (get_bases (PlainTuple ?bases))
      then cls_A # get_bases (PlainTuple ?bases) else get_bases (PlainTuple ?bases))"
    by blast
  then have 4: "DocumentMeta_new cls_A (PlainTuple ?bases) [(''dot_notation'', PBool True)] =
     [cls_B, cls_A, cls_C]"
    unfolding 1 by simp
  from lin [of cls_mixin "[]"]
  have "DocumentMeta_new cls_mixin (PlainTuple ?bases) [] =
     (if (\<exists>v. map_of [] ''dot_notation'' = Some v \<and> truthy v) \<and>
         cls_mixin \<notin> set (get_bases (PlainTuple ?bases))
      then cls_mixin # get_bases (PlainTuple ?bases) else get_bases (PlainTuple ?bases))"
    by blast
  then have 5: "DocumentMeta_new cls_mixin (PlainTuple ?bases) [] = [cls_B, cls_A, cls_C]"
    unfolding 1 by simp
  from 1 2 3 4 5 show ?thesis by blast
qed

section \<open>Validating one field\<close>

lemma ex_nm_cells: "cells ex_heap1 (fields_ref ex_nm) = ex_doc_fields"
  by (simp add: ex_heap1_def ex_nm_def)

text \<open>
  C8 (amended). \<^verbatim>\<open>Nanomongo.validate\<close> returns what the validator of the named Field
  returns for the value; for a name that is not a key of the field mapping it raises the
  built-in \<^verbatim>\<open>KeyError\<close> of the dict lookup.
\<close>

theorem Nanomongo_validate_lookup:
  "(map_of (cells h (fields_ref nm)) field_name = Some f \<longrightarrow>
      Nanomongo_validate vld h nm field_name v = vld f v field_name) \<and>
   (\<not> has_field h nm field_name \<longrightarrow>
      Nanomongo_validate vld h nm field_name v = Inl (KeyError field_name))"
  by (auto simp: Nanomongo_validate_def has_field_def map_of_eq_None_iff [symmetric])

theorem Nanomongo_validate_lookup_witness:
  "map_of (cells ex_heap1 (fields_ref ex_nm)) ''foo'' = Some foo_field \<and>
   Nanomongo_validate ex_vld ex_heap1 ex_nm ''foo'' (PStr ''x'') = Inr (PStr ''x'') \<and>
   \<not> has_field ex_heap1 ex_nm ''zzz'' \<and>
   Nanomongo_validate ex_vld ex_heap1 ex_nm ''zzz'' (PInt 1) = Inl (KeyError ''zzz'')"
proof -
  have 1: "map_of (cells ex_heap1 (fields_ref ex_nm)) ''foo'' = Some foo_field"
    by (simp add: ex_nm_cells ex_doc_fields_def)
  have 2: "\<not> has_field ex_heap1 ex_nm ''zzz''"
    by (simp add: has_field_def ex_nm_cells ex_doc_fields_def)
  have 3: "ex_vld foo_field (PStr ''x'') ''foo'' = Inr (PStr ''x'')"
    by (simp add: ex_vld_def foo_field_def)
  from Nanomongo_validate_lookup [of ex_heap1 ex_nm "''foo''" foo_field ex_vld "PStr ''x''"] 1 3
  have 4: "Nanomongo_validate ex_vld ex_heap1 ex_nm ''foo'' (PStr ''x'') = Inr (PStr ''x'')"
    by simp
  from Nanomongo_validate_lookup [of ex_heap1 ex_nm "''zzz''" foo_field ex_vld "PInt 1"] 2
  have 5: "Nanomongo_validate ex_vld ex_heap1 ex_nm ''zzz'' (PInt 1) = Inl (KeyError ''zzz'')"
    by simp
  from 1 2 4 5 show ?thesis by blast
qed

text \<open>
  C8 as stated fails: for the unregistered name \<^verbatim>\<open>zzz\<close> the error is \<^verbatim>\<open>KeyError\<close>,
  not \<^verbatim>\<open>UnknownFieldError\<close>.
\<close>

theorem Nanomongo_validate_unknown_counterexample:
  "\<not> has_field ex_heap1 ex_nm ''zzz'' \<and>
   Nanomongo_validate ex_vld ex_heap1 ex_nm ''zzz'' (PInt 1) = Inl (KeyError ''zzz'') \<and>
   \<not> is_UnknownFieldError (Nanomongo_validate ex_vld ex_heap1 ex_nm ''zzz'' (PInt 1))"
  by (simp add: Nanomongo_validate_def has_field_def ex_nm_cells ex_doc_fields_def)

section \<open>Constructing a document\<close>

lemma map_of_merge_args: "map_of (merge_args items kwargs) = map_of items ++ map_of kwargs"
proof (induction items arbitrary: kwargs)
  case Nil
  show ?case by simp
next
  case (Cons p items)
  obtain k v where p: "p = (k, v)" by (cases p)
  show ?case
  proof (cases "k \<in> fst ` set kwargs")
    case True
    then obtain w where "map_of kwargs k = Some w"
      by (cases "map_of kwargs k") (auto simp: map_of_eq_None_iff)
    with True Cons [of kwargs] show ?thesis
      by (auto simp: p fun_eq_iff map_add_def split: option.splits)
  next
    case False
    then have "map_of kwargs k = None"
      by (simp add: map_of_eq_None_iff)
    with False Cons [of "AList.update k v kwargs"] show ?thesis
      by (auto simp: p fun_eq_iff map_add_def AList.update_conv' split: option.splits)
  qed
qed

lemma distinct_merge_args:
  "distinct (map fst kwargs) \<Longrightarrow> distinct (map fst (merge_args items kwargs))"
  by (induction items kwargs rule: merge_args.induct) (simp_all add: AList.distinct_update)


lemma as_keywords_kw_items: "as_keywords (kw_items kw) = Some kw"
  by (induction kw) (auto simp: kw_items_def)

lemma as_keywords_Some: "as_keywords xs = Some kw \<Longrightarrow> xs = kw_items kw"
  by (induction xs arbitrary: kw rule: as_keywords.induct)
    (auto simp: kw_items_def split: option.splits)


lemma map_of_kw_items: "map_of (kw_items kw) (PStr k) = map_of kw k"
  by (induction kw) (auto simp: kw_items_def)

lemma keys_kw_items: "fst ` set (kw_items kw) = PStr ` fst ` set kw"
  by (force simp: kw_items_def image_iff)

lemma distinct_kw_items: "distinct (map fst (kw_items kw)) = distinct (map fst kw)"
proof -
  have "map fst (kw_items kw) = map PStr (map fst kw)"
    by (simp add: kw_items_def case_prod_beta)
  then show ?thesis
    by (simp add: distinct_map inj_on_def)
qed

lemma set_defaults_lookup:
  "set_defaults fs self = Inr self' \<Longrightarrow> distinct (map fst fs) \<Longrightarrow>
   map_of self' n =
     (case map_of fs n of
        None \<Rightarrow> map_of self n
      | Some f \<Rightarrow>
          (case default_value f of
             None \<Rightarrow> map_of self n
           | Some (Value v) \<Rightarrow> Some v
           | Some (Provider c) \<Rightarrow> (case c of Inl e \<Rightarrow> None | Inr r \<Rightarrow> Some r)))"
proof (induction fs self rule: set_defaults.induct)
  case (1 self)
  then show ?case by simp
next
  case (2 field_name field fs self)
  then have "map_of fs field_name = None"
    by (simp add: map_of_eq_None_iff)
  with 2 show ?case
    by (auto simp: AList.update_conv' split: option.splits sum.splits default.splits)
qed

lemma set_defaults_no_raise:
  "set_defaults fs self = Inr self' \<Longrightarrow> (n, f) \<in> set fs \<Longrightarrow>
   default_value f \<noteq> Some (Provider (Inl e))"
  by (induction fs self rule: set_defaults.induct) (auto split: option.splits sum.splits)

lemma set_defaults_returns:
  "providers_return fs \<Longrightarrow> \<exists>self'. set_defaults fs self = Inr self'"
proof (induction fs self rule: set_defaults.induct)
  case (1 self)
  show ?case by simp
next
  case (2 field_name field fs self)
  then show ?case
    by (cases "default_value field")
      (auto simp: providers_return_def raises_def split: default.splits sum.splits)
qed

lemma set_kwargs_other:
  "set_kwargs vld h nm items self = Inr self' \<Longrightarrow> n \<notin> fst ` set items \<Longrightarrow>
   map_of self' n = map_of self n"
  by (induction vld h nm items self rule: set_kwargs.induct)
    (auto simp: AList.update_conv' split: if_splits sum.splits)

lemma map_of_set_kwargs:
  "set_kwargs vld h nm items self = Inr self' \<Longrightarrow> distinct (map fst items) \<Longrightarrow>
   map_of self' = map_of self ++ map_of items"
proof (induction vld h nm items self rule: set_kwargs.induct)
  case (1 vld h nm self)
  then show ?case by simp
next
  case (2 vld h nm field_name v items self)
  from "2.prems" have none: "map_of items field_name = None"
    by (simp add: map_of_eq_None_iff)
  from "2.prems" obtain r where has: "has_field h nm field_name"
    and ok: "Nanomongo_validate vld h nm field_name v = Inr r"
    and rest: "set_kwargs vld h nm items (AList.update field_name v self) = Inr self'"
    by (auto split: if_splits sum.splits)
  from "2.IH" [OF has ok rest] "2.prems"(2)
  have "map_of self' = map_of (AList.update field_name v self) ++ map_of items" by simp
  with none show ?case
    by (auto simp: fun_eq_iff map_add_def AList.update_conv' split: option.splits)
qed


lemma set_kwargs_rejected:
  "\<forall>(k', v') \<in> set pre. has_field h nm k' \<and> (\<exists>r. Nanomongo_validate vld h nm k' v' = Inr r) \<Longrightarrow>
   has_field h nm k \<Longrightarrow> Nanomongo_validate vld h nm k v = Inl e \<Longrightarrow>
   set_kwargs vld h nm (pre @ (k, v) # post) self = Inl e"
  by (induction pre arbitrary: self) auto

lemma set_kwargs_accepted:
  "\<forall>(k, v) \<in> set items. has_field h nm k \<and> (\<exists>r. Nanomongo_validate vld h nm k v = Inr r) \<Longrightarrow>
   \<exists>self'. set_kwargs vld h nm items self = Inr self'"
  by (induction items arbitrary: self) auto

lemma set_kwargs_validated:
  "set_kwargs vld h nm items self = Inr self' \<Longrightarrow>
   \<forall>(k, v) \<in> set items. has_field h nm k \<and> (\<exists>r. Nanomongo_validate vld h nm k v = Inr r)"
  by (induction vld h nm items self rule: set_kwargs.induct) (auto split: if_splits sum.splits)


lemma set_kwargs_cong:
  "\<forall>(k, v) \<in> set items. Nanomongo_validate vld h nm k v = Nanomongo_validate vld' h nm k v \<Longrightarrow>
   set_kwargs vld h nm items self = set_kwargs vld' h nm items self"
  by (induction vld h nm items self rule: set_kwargs.induct) (auto split: sum.splits)

lemma has_field_iff: "has_field h nm k \<longleftrightarrow> map_of (cells h (fields_ref nm)) k \<noteq> None"
  by (simp add: has_field_def map_of_eq_None_iff)

lemma validate_declared:
  "has_field h nm k \<and> (\<exists>r. Nanomongo_validate vld h nm k v = Inr r) \<longleftrightarrow>
   (\<exists>f r. map_of (cells h (fields_ref nm)) k = Some f \<and> vld f v k = Inr r)"
  by (cases "map_of (cells h (fields_ref nm)) k")
    (auto simp: has_field_iff Nanomongo_validate_def)

text \<open>The body of the constructor once the arguments are bound and the keywords are strings.\<close>

lemma BaseDocument_init_bound:
  assumes "''self'' \<notin> fst ` set kwargs"
    and "args = [] \<or> (\<exists>d. args = [PDict d])"
    and "merged_kwargs args kwargs = kw_items kw"
  shows "\<exists>self0. BaseDocument_init vld h nm args kwargs =
    (case set_defaults (cells h (fields_ref nm)) self0 of
       Inl e \<Rightarrow> Inl e
     | Inr self' \<Rightarrow> set_kwargs vld h nm kw self')"
  using assms
  by (auto simp: BaseDocument_init_def construct_def merged_kwargs_def as_keywords_kw_items)

lemma BaseDocument_init_Inr:
  assumes "BaseDocument_init vld h nm args kwargs = Inr self"
  shows "\<exists>kw self0 self'. merged_kwargs args kwargs = kw_items kw \<and>
     set_defaults (cells h (fields_ref nm)) self0 = Inr self' \<and>
     set_kwargs vld h nm kw self' = Inr self"
  using assms
  by (auto simp: BaseDocument_init_def construct_def merged_kwargs_def
      split: if_splits list.splits option.splits sum.splits dest: as_keywords_Some)


lemma merged_kwargs_distinct:
  "distinct (map fst kwargs) \<Longrightarrow> distinct (map fst (merged_kwargs args kwargs))"
  by (auto simp: merged_kwargs_def distinct_kw_items split: list.splits intro: distinct_merge_args)

lemma ex_heap_d_cells:
  "cells ex_heap_d (fields_ref ex_nm) = [(''_id'', id_field), (''count'', count_field), (''tags'', moo_field)]"
  by (simp add: ex_heap_d_def ex_nm_def)

lemma has_field_ex_nm:
  "has_field ex_heap1 ex_nm k \<longleftrightarrow> k = ''foo'' \<or> k = ''bar'' \<or> k = ''_id''"
  by (auto simp: has_field_def ex_nm_cells ex_doc_fields_def)

lemma validate_ex_nm:
  "Nanomongo_validate ex_vld ex_heap1 ex_nm ''foo'' v = ex_vld foo_field v ''foo''"
  "Nanomongo_validate ex_vld ex_heap1 ex_nm ''bar'' v = ex_vld bar_field v ''bar''"
  by (simp_all add: Nanomongo_validate_def ex_nm_cells ex_doc_fields_def)

lemma construct_cong:
  "\<forall>k v. (PStr k, v) \<in> set xs \<longrightarrow>
     Nanomongo_validate vld h nm k v = Nanomongo_validate vld' h nm k v \<Longrightarrow>
   construct vld h nm args xs = construct vld' h nm args xs"
proof (cases "as_keywords xs")
  case None
  then show ?thesis by (simp add: construct_def)
next
  case (Some kw)
  assume a: "\<forall>k v. (PStr k, v) \<in> set xs \<longrightarrow>
     Nanomongo_validate vld h nm k v = Nanomongo_validate vld' h nm k v"
  from Some have "xs = kw_items kw" by (rule as_keywords_Some)
  with a have "\<forall>(k, v) \<in> set kw. Nanomongo_validate vld h nm k v = Nanomongo_validate vld' h nm k v"
    by (force simp: kw_items_def)
  from set_kwargs_cong [OF this] Some show ?thesis
    by (auto simp: construct_def split: sum.splits)
qed

text \<open>
  C6. The items of a positional mapping are merged into the keyword arguments without
  overwriting them; in a document constructed from the mapping \<open>d\<close> and the keyword
  arguments, every keyword argument has its own value, whether or not \<open>d\<close> has the key,
  and a key of \<open>d\<close> alone has the value of \<open>d\<close>. A first positional argument that is
  not a dict is a \<^verbatim>\<open>TypeError\<close>: the one the body raises, or the one of the call when a
  keyword is named \<^verbatim>\<open>self\<close>.
\<close>

theorem BaseDocument_init_merge:
  "map_of (merge_args d (kw_items kwargs)) = map_of d ++ map_of (kw_items kwargs) \<and>
   (\<not> is_dict a \<longrightarrow>
      BaseDocument_init vld h nm (a # rest) kwargs =
        Inl (TypeError (if ''self'' \<in> fst ` set kwargs
                        then ''__init__() got multiple values for argument self''
                        else ''dict or dict subclass argument expected''))) \<and>
   (distinct (map fst kwargs) \<and> BaseDocument_init vld h nm [PDict d] kwargs = Inr self \<longrightarrow>
      (\<forall>k v. map_of kwargs k = Some v \<longrightarrow> map_of self k = Some v) \<and>
      (\<forall>k v. map_of kwargs k = None \<and> map_of d (PStr k) = Some v \<longrightarrow> map_of self k = Some v))"
proof -
  have bad: "BaseDocument_init vld h nm (a # rest) kwargs =
        Inl (TypeError (if ''self'' \<in> fst ` set kwargs
                        then ''__init__() got multiple values for argument self''
                        else ''dict or dict subclass argument expected''))" if "\<not> is_dict a"
    using that by (simp add: BaseDocument_init_def)
  have wins: "(\<forall>k v. map_of kwargs k = Some v \<longrightarrow> map_of self k = Some v) \<and>
      (\<forall>k v. map_of kwargs k = None \<and> map_of d (PStr k) = Some v \<longrightarrow> map_of self k = Some v)"
    if dist: "distinct (map fst kwargs)"
      and ok: "BaseDocument_init vld h nm [PDict d] kwargs = Inr self"
  proof -
    from BaseDocument_init_Inr [OF ok] obtain kw self0 self'
      where m: "merged_kwargs [PDict d] kwargs = kw_items kw"
        and s: "set_kwargs vld h nm kw self' = Inr self"
      by blast
    from merged_kwargs_distinct [OF dist, of "[PDict d]"] have "distinct (map fst kw)"
      by (simp add: m distinct_kw_items)
    from map_of_set_kwargs [OF s this] have self: "map_of self = map_of self' ++ map_of kw" .
    have kw: "map_of kw k = (map_of d ++ map_of (kw_items kwargs)) (PStr k)" for k
    proof -
      from m have "merge_args d (kw_items kwargs) = kw_items kw"
        by (simp add: merged_kwargs_def)
      then have "map_of (kw_items kw) = map_of d ++ map_of (kw_items kwargs)"
        using map_of_merge_args [of d "kw_items kwargs"] by simp
      then show ?thesis
        using map_of_kw_items [of kw k] by simp
    qed
    show ?thesis
      unfolding self by (auto simp: kw map_add_def map_of_kw_items split: option.splits)
  qed
  from bad wins show ?thesis
    by (simp add: map_of_merge_args)
qed

theorem BaseDocument_init_merge_witness:
  "\<not> is_dict (PList []) \<and>
   BaseDocument_init ex_vld ex_heap1 ex_nm [PList []] [(''foo'', PStr ''named'')] =
     Inl (TypeError ''dict or dict subclass argument expected'') \<and>
   distinct (map fst [(''foo'', PStr ''named'')]) \<and>
   BaseDocument_init ex_vld ex_heap1 ex_nm
     [PDict [(PStr ''foo'', PStr ''positional''), (PStr ''bar'', PInt 1)]]
     [(''foo'', PStr ''named'')] = Inr [(''foo'', PStr ''named''), (''bar'', PInt 1)] \<and>
   map_of [(''foo'', PStr ''named''), (''bar'', PInt 1)] ''foo'' = Some (PStr ''named'') \<and>
   map_of [(''foo'', PStr ''named''), (''bar'', PInt 1)] ''bar'' = Some (PInt 1)"
proof -
  let ?d = "[(PStr ''foo'', PStr ''positional''), (PStr ''bar'', PInt 1)]"
  let ?kw = "[(''foo'', PStr ''named'')]"
  let ?self = "[(''foo'', PStr ''named''), (''bar'', PInt 1)]"
  have 1: "\<not> is_dict (PList [])" by simp
  have 2: "distinct (map fst ?kw)" by simp
  have 3: "BaseDocument_init ex_vld ex_heap1 ex_nm [PDict ?d] ?kw = Inr ?self"
    by (simp add: BaseDocument_init_def construct_def kw_items_def ex_nm_cells ex_doc_fields_def
        has_field_ex_nm validate_ex_nm ex_vld_def foo_field_def bar_field_def id_field_def)
  note m = BaseDocument_init_merge [of ?d ?kw "PList []" ex_vld ex_heap1 ex_nm "[]" ?self]
  from m [THEN conjunct2, THEN conjunct1] 1
  have 4: "BaseDocument_init ex_vld ex_heap1 ex_nm [PList []] ?kw =
      Inl (TypeError ''dict or dict subclass argument expected'')"
    by simp
  have kw: "map_of ?kw ''foo'' = Some (PStr ''named'')"
    "map_of ?kw ''bar'' = None \<and> map_of ?d (PStr ''bar'') = Some (PInt 1)"
    by simp_all
  from m [THEN conjunct2, THEN conjunct2] 2 3 kw(1) have 5: "map_of ?self ''foo'' = Some (PStr ''named'')"
    by blast
  from m [THEN conjunct2, THEN conjunct2] 2 3 kw(2) have 6: "map_of ?self ''bar'' = Some (PInt 1)"
    by blast
  from 1 2 3 4 5 6 show ?thesis by blast
qed

text \<open>
  C10. The default loop stores, for a schema field with a default, the value itself or
  what the call of the provider returned, and consults no validator. A constructed
  instance holds that value for every such field the caller supplied no value for. A
  construction succeeds when the call is well formed, no provider raises and every
  supplied value is declared and accepted by its validator: nothing is asked of the
  defaults. Conversely, in a constructed instance every supplied value was accepted by
  the validator of its field, and a supplied value that its validator rejects ends the
  construction with the validator's error. The validation capability matters through
  the supplied values only.
\<close>

theorem BaseDocument_init_defaults:
  "(distinct (map fst fs) \<and> set_defaults fs self0 = Inr self1 \<and> map_of fs n = Some f \<longrightarrow>
      (\<forall>v. default_value f = Some (Value v) \<longrightarrow> map_of self1 n = Some v) \<and>
      (\<forall>r. default_value f = Some (Provider (Inr r)) \<longrightarrow> map_of self1 n = Some r)) \<and>
   (distinct (map fst (cells h (fields_ref nm))) \<and>
    BaseDocument_init vld h nm args kwargs = Inr self \<and>
    map_of (cells h (fields_ref nm)) n = Some f \<and>
    PStr n \<notin> fst ` set (merged_kwargs args kwargs) \<longrightarrow>
      (\<forall>v. default_value f = Some (Value v) \<longrightarrow> map_of self n = Some v) \<and>
      (\<forall>r. default_value f = Some (Provider (Inr r)) \<longrightarrow> map_of self n = Some r)) \<and>
   (''self'' \<notin> fst ` set kwargs \<and> (args = [] \<or> (\<exists>d. args = [PDict d])) \<and>
    merged_kwargs args kwargs = kw_items kw \<and>
    providers_return (cells h (fields_ref nm)) \<and>
    (\<forall>(k, v) \<in> set kw. \<exists>g r. map_of (cells h (fields_ref nm)) k = Some g \<and> vld g v k = Inr r) \<longrightarrow>
      (\<exists>self. BaseDocument_init vld h nm args kwargs = Inr self)) \<and>
   (BaseDocument_init vld h nm args kwargs = Inr self \<longrightarrow>
      (\<exists>kw. merged_kwargs args kwargs = kw_items kw \<and>
         (\<forall>(k, v) \<in> set kw. \<exists>g r. map_of (cells h (fields_ref nm)) k = Some g \<and> vld g v k = Inr r))) \<and>
   (''self'' \<notin> fst ` set kwargs \<and> (args = [] \<or> (\<exists>d. args = [PDict d])) \<and>
    merged_kwargs args kwargs = kw_items (pre @ (k, v) # post) \<and>
    providers_return (cells h (fields_ref nm)) \<and>
    (\<forall>(k', v') \<in> set pre. \<exists>g r. map_of (cells h (fields_ref nm)) k' = Some g \<and> vld g v' k' = Inr r) \<and>
    map_of (cells h (fields_ref nm)) k = Some g \<and> vld g v k = Inl e \<longrightarrow>
      BaseDocument_init vld h nm args kwargs = Inl e) \<and>
   ((\<forall>k v. (PStr k, v) \<in> set (merged_kwargs args kwargs) \<longrightarrow>
        Nanomongo_validate vld h nm k v = Nanomongo_validate vld' h nm k v) \<longrightarrow>
      BaseDocument_init vld h nm args kwargs = BaseDocument_init vld' h nm args kwargs)"
  (is "?c1 \<and> ?c2 \<and> ?c3 \<and> ?c4 \<and> ?c5 \<and> ?c6")
proof -
  let ?fs = "cells h (fields_ref nm)"
  have loop: "(\<forall>v. default_value f = Some (Value v) \<longrightarrow> map_of s1 n = Some v) \<and>
      (\<forall>r. default_value f = Some (Provider (Inr r)) \<longrightarrow> map_of s1 n = Some r)"
    if "distinct (map fst gs)" "set_defaults gs s0 = Inr s1" "map_of gs n = Some f" for gs s0 s1
    using set_defaults_lookup [OF that(2,1), of n] that(3) by auto
  have final: "(\<forall>v. default_value f = Some (Value v) \<longrightarrow> map_of self n = Some v) \<and>
      (\<forall>r. default_value f = Some (Provider (Inr r)) \<longrightarrow> map_of self n = Some r)"
    if d: "distinct (map fst ?fs)"
      and ok: "BaseDocument_init vld h nm args kwargs = Inr self"
      and f: "map_of ?fs n = Some f"
      and ns: "PStr n \<notin> fst ` set (merged_kwargs args kwargs)"
  proof -
    from BaseDocument_init_Inr [OF ok] obtain kw s0 s1
      where m: "merged_kwargs args kwargs = kw_items kw"
        and sd: "set_defaults ?fs s0 = Inr s1"
        and sk: "set_kwargs vld h nm kw s1 = Inr self"
      by blast
    from ns m have "n \<notin> fst ` set kw"
      by (auto simp: keys_kw_items)
    from set_kwargs_other [OF sk this] have "map_of self n = map_of s1 n" .
    with loop [OF d sd f] show ?thesis by simp
  qed
  have succeeds: "\<exists>self. BaseDocument_init vld h nm args kwargs = Inr self"
    if b: "''self'' \<notin> fst ` set kwargs" "args = [] \<or> (\<exists>d. args = [PDict d])"
      "merged_kwargs args kwargs = kw_items kw"
      and pr: "providers_return ?fs"
      and acc: "\<forall>(k, v) \<in> set kw. \<exists>g r. map_of ?fs k = Some g \<and> vld g v k = Inr r"
  proof -
    from BaseDocument_init_bound [OF b] obtain s0
      where i: "BaseDocument_init vld h nm args kwargs =
        (case set_defaults ?fs s0 of Inl e \<Rightarrow> Inl e | Inr s1 \<Rightarrow> set_kwargs vld h nm kw s1)"
      by blast
    from set_defaults_returns [OF pr] obtain s1 where sd: "set_defaults ?fs s0 = Inr s1"
      by blast
    from acc have "\<forall>(k, v) \<in> set kw. has_field h nm k \<and> (\<exists>r. Nanomongo_validate vld h nm k v = Inr r)"
      by (simp add: validate_declared case_prod_beta)
    from set_kwargs_accepted [OF this, of s1] i sd show ?thesis
      by auto
  qed
  have validated: "\<exists>kw. merged_kwargs args kwargs = kw_items kw \<and>
         (\<forall>(k, v) \<in> set kw. \<exists>g r. map_of ?fs k = Some g \<and> vld g v k = Inr r)"
    if ok: "BaseDocument_init vld h nm args kwargs = Inr self"
  proof -
    from BaseDocument_init_Inr [OF ok] obtain kw s1
      where m: "merged_kwargs args kwargs = kw_items kw"
        and sk: "set_kwargs vld h nm kw s1 = Inr self"
      by blast
    from set_kwargs_validated [OF sk]
    have "\<forall>(k, v) \<in> set kw. \<exists>g r. map_of ?fs k = Some g \<and> vld g v k = Inr r"
      by (simp add: validate_declared case_prod_beta)
    with m show ?thesis by blast
  qed
  have rejected: "BaseDocument_init vld h nm args kwargs = Inl e"
    if b: "''self'' \<notin> fst ` set kwargs" "args = [] \<or> (\<exists>d. args = [PDict d])"
      "merged_kwargs args kwargs = kw_items (pre @ (k, v) # post)"
      and pr: "providers_return ?fs"
      and acc: "\<forall>(k', v') \<in> set pre. \<exists>g r. map_of ?fs k' = Some g \<and> vld g v' k' = Inr r"
      and g: "map_of ?fs k = Some g" "vld g v k = Inl e"
  proof -
    from BaseDocument_init_bound [OF b] obtain s0
      where i: "BaseDocument_init vld h nm args kwargs =
        (case set_defaults ?fs s0 of Inl e \<Rightarrow> Inl e
         | Inr s1 \<Rightarrow> set_kwargs vld h nm (pre @ (k, v) # post) s1)"
      by blast
    from set_defaults_returns [OF pr] obtain s1 where sd: "set_defaults ?fs s0 = Inr s1"
      by blast
    from acc have p: "\<forall>(k', v') \<in> set pre.
        has_field h nm k' \<and> (\<exists>r. Nanomongo_validate vld h nm k' v' = Inr r)"
      by (simp add: validate_declared case_prod_beta)
    from g have "has_field h nm k" "Nanomongo_validate vld h nm k v = Inl e"
      by (simp_all add: has_field_iff Nanomongo_validate_def)
    from set_kwargs_rejected [OF p this, of post s1] i sd show ?thesis
      by simp
  qed
  have same: "BaseDocument_init vld h nm args kwargs = BaseDocument_init vld' h nm args kwargs"
    if "\<forall>k v. (PStr k, v) \<in> set (merged_kwargs args kwargs) \<longrightarrow>
        Nanomongo_validate vld h nm k v = Nanomongo_validate vld' h nm k v"
    using that
    by (cases args) (auto simp: BaseDocument_init_def merged_kwargs_def dest: construct_cong)
  from loop [of fs self0 self1] have c1: ?c1 by blast
  from final have c2: ?c2 by blast
  from succeeds have c3: ?c3 by blast
  from validated have c4: ?c4 by blast
  from rejected have c5: ?c5 by blast
  from same have c6: ?c6 by blast
  show ?thesis
    by (rule conjI [OF c1 conjI [OF c2 conjI [OF c3 conjI [OF c4 conjI [OF c5 c6]]]]])
qed

theorem BaseDocument_init_defaults_witness:
  "distinct (map fst (cells ex_heap_d (fields_ref ex_nm))) \<and>
   providers_return (cells ex_heap_d (fields_ref ex_nm)) \<and>
   map_of (cells ex_heap_d (fields_ref ex_nm)) ''count'' = Some count_field \<and>
   default_value count_field = Some (Value (PStr ''n/a'')) \<and>
   ex_vld count_field (PStr ''n/a'') ''count'' = Inl (ValidationError (ValidatorMsg ''count'')) \<and>
   map_of (cells ex_heap_d (fields_ref ex_nm)) ''tags'' = Some moo_field \<and>
   default_value moo_field = Some (Provider (Inr (PList []))) \<and>
   BaseDocument_init ex_vld ex_heap_d ex_nm [] [] =
     Inr [(''count'', PStr ''n/a''), (''tags'', PList [])] \<and>
   map_of [(''count'', PStr ''n/a''), (''tags'', PList [])] ''count'' = Some (PStr ''n/a'') \<and>
   map_of [(''count'', PStr ''n/a''), (''tags'', PList [])] ''tags'' = Some (PList []) \<and>
   (\<exists>self. BaseDocument_init ex_vld ex_heap_d ex_nm [] [(''tags'', PList [PStr ''a''])] = Inr self \<and>
      map_of self ''count'' = Some (PStr ''n/a'')) \<and>
   BaseDocument_init ex_vld ex_heap_d ex_nm [] [(''tags'', PInt 3)] =
     Inl (ValidationError (ValidatorMsg ''tags''))"
proof -
  let ?fs = "cells ex_heap_d (fields_ref ex_nm)"
  let ?self = "[(''count'', PStr ''n/a''), (''tags'', PList [])]"
  have 1: "distinct (map fst ?fs)"
    by (simp add: ex_heap_d_cells)
  have 2: "providers_return ?fs"
    by (simp add: providers_return_def raises_def ex_heap_d_cells id_field_def count_field_def
        moo_field_def)
  have 3: "map_of ?fs ''count'' = Some count_field" "map_of ?fs ''tags'' = Some moo_field"
    by (simp_all add: ex_heap_d_cells)
  have 4: "default_value count_field = Some (Value (PStr ''n/a''))"
    "default_value moo_field = Some (Provider (Inr (PList [])))"
    by (simp_all add: count_field_def moo_field_def)
  have 5: "ex_vld count_field (PStr ''n/a'') ''count'' = Inl (ValidationError (ValidatorMsg ''count''))"
    by (simp add: ex_vld_def count_field_def)
  have 6: "BaseDocument_init ex_vld ex_heap_d ex_nm [] [] = Inr ?self"
    by (simp add: BaseDocument_init_def construct_def kw_items_def ex_heap_d_cells
        id_field_def count_field_def moo_field_def)
  have eval: "BaseDocument_init ex_vld ex_heap_d ex_nm [] [(''tags'', PList [PStr ''a''])] =
        Inr [(''tags'', PList [PStr ''a'']), (''count'', PStr ''n/a'')] \<and>
      BaseDocument_init ex_vld ex_heap_d ex_nm [] [(''tags'', PInt 3)] =
        Inl (ValidationError (ValidatorMsg ''tags''))"
    by (simp add: BaseDocument_init_def construct_def kw_items_def has_field_def
        Nanomongo_validate_def ex_heap_d_cells ex_vld_def
        id_field_def count_field_def moo_field_def)
  have 7: "PStr ''count'' \<notin> fst ` set (merged_kwargs [] [])"
    "PStr ''tags'' \<notin> fst ` set (merged_kwargs [] [])"
    by (simp_all add: merged_kwargs_def kw_items_def)
  from BaseDocument_init_defaults [of ?fs "[]" ?self "''count''" count_field ex_heap_d ex_nm
      ex_vld "[]" "[]" ?self, THEN conjunct2, THEN conjunct1] 1 3(1) 4(1) 6 7(1)
  have 8: "map_of ?self ''count'' = Some (PStr ''n/a'')"
    by blast
  from BaseDocument_init_defaults [of ?fs "[]" ?self "''tags''" moo_field ex_heap_d ex_nm
      ex_vld "[]" "[]" ?self, THEN conjunct2, THEN conjunct1] 1 3(2) 4(2) 6 7(2)
  have 9: "map_of ?self ''tags'' = Some (PList [])"
    by blast
  let ?kw = "[(''tags'', PList [PStr ''a''])]"
  have 10: "''self'' \<notin> fst ` set ?kw" "merged_kwargs [] ?kw = kw_items ?kw"
    "PStr ''count'' \<notin> fst ` set (merged_kwargs [] ?kw)"
    by (simp_all add: merged_kwargs_def kw_items_def)
  have 11: "\<forall>(k, v) \<in> set ?kw. \<exists>g r. map_of ?fs k = Some g \<and> ex_vld g v k = Inr r"
    by (simp add: ex_heap_d_cells ex_vld_def moo_field_def)
  from BaseDocument_init_defaults [of ?fs "[]" ?self "''count''" count_field ex_heap_d ex_nm
      ex_vld "[]" ?kw _ ?kw, THEN conjunct2, THEN conjunct2, THEN conjunct1] 2 10 11
  obtain self where s: "BaseDocument_init ex_vld ex_heap_d ex_nm [] ?kw = Inr self"
    by blast
  from BaseDocument_init_defaults [of ?fs "[]" ?self "''count''" count_field ex_heap_d ex_nm
      ex_vld "[]" ?kw self, THEN conjunct2, THEN conjunct1] 1 3(1) 4(1) s 10(3)
  have "map_of self ''count'' = Some (PStr ''n/a'')"
    by blast
  with s have 12: "\<exists>self. BaseDocument_init ex_vld ex_heap_d ex_nm [] ?kw = Inr self \<and>
      map_of self ''count'' = Some (PStr ''n/a'')"
    by blast
  let ?bad = "[(''tags'', PInt 3)]"
  have 13: "''self'' \<notin> fst ` set ?bad" "merged_kwargs [] ?bad = kw_items ([] @ (''tags'', PInt 3) # [])"
    "ex_vld moo_field (PInt 3) ''tags'' = Inl (ValidationError (ValidatorMsg ''tags''))"
    by (simp_all add: merged_kwargs_def kw_items_def ex_vld_def moo_field_def)
  from BaseDocument_init_defaults [of ?fs "[]" ?self "''count''" count_field ex_heap_d ex_nm
      ex_vld "[]" ?bad ?self ?bad "[]" "''tags''" "PInt 3" "[]" moo_field
      "ValidationError (ValidatorMsg ''tags'')", THEN conjunct2, THEN conjunct2, THEN conjunct2, THEN conjunct2, THEN conjunct1] 2 3(2) 13
  have 14: "BaseDocument_init ex_vld ex_heap_d ex_nm [] ?bad = Inl (ValidationError (ValidatorMsg ''tags''))"
    by simp
  from 1 2 3 4 5 6 8 9 12 14 eval show ?thesis by blast
qed




section \<open>Full validation and saving\<close>

lemma check_extra_None:
  "\<forall>k \<in> fst ` set self. has_field h nm k \<Longrightarrow> check_extra h nm self = None"
  by (induction h nm self rule: check_extra.induct) auto

lemma check_extra_first:
  "\<forall>k' \<in> fst ` set pre. has_field h nm k' \<Longrightarrow> \<not> has_field h nm k \<Longrightarrow>
   check_extra h nm (pre @ (k, w) # post) = Some (ValidationError (ExtraFieldMsg k w))"
  by (induction pre) auto

lemma check_fields_prefix:
  "\<forall>(n, fl) \<in> set pre.
     (case map_of self n of None \<Rightarrow> \<not> required fl | Some w \<Rightarrow> \<exists>r. vld fl w n = Inr r) \<Longrightarrow>
   check_fields vld (pre @ rest) self = check_fields vld rest self"
  by (induction pre) (auto split: option.splits)

lemma check_fields_None:
  "\<forall>(n, fl) \<in> set fs.
     (case map_of self n of None \<Rightarrow> \<not> required fl | Some v \<Rightarrow> \<exists>r. vld fl v n = Inr r) \<Longrightarrow>
   check_fields vld fs self = None"
  by (induction vld fs self rule: check_fields.induct) (auto split: option.splits)

lemma check_fields_fails:
  "map_of fs f = Some fld \<Longrightarrow> required fld \<Longrightarrow> map_of self f = None \<Longrightarrow>
   check_fields vld fs self \<noteq> None"
  by (induction vld fs self rule: check_fields.induct) (auto split: option.splits sum.splits if_splits)

lemma validate_all_fails:
  "map_of (cells h (fields_ref nm)) f = Some fld \<Longrightarrow> required fld \<Longrightarrow> map_of self f = None \<Longrightarrow>
   isl (validate_all vld hook h nm self)"
  using check_fields_fails [of "cells h (fields_ref nm)" f fld self vld]
  by (auto simp: validate_all_def split: option.splits)

lemma validate_all_first_field:
  assumes "\<forall>k \<in> fst ` set self. has_field h nm k"
    and "cells h (fields_ref nm) = pre @ (f, fld) # post"
    and "\<forall>(n, fl) \<in> set pre.
       (case map_of self n of None \<Rightarrow> \<not> required fl | Some w \<Rightarrow> \<exists>r. vld fl w n = Inr r)"
  shows "(map_of self f = None \<and> required fld \<longrightarrow>
            validate_all vld hook h nm self = Inl (ValidationError (RequiredMissingMsg f))) \<and>
         (\<forall>w e. map_of self f = Some w \<and> vld fld w f = Inl e \<longrightarrow>
            validate_all vld hook h nm self = Inl e)"
proof -
  from assms(1) have "check_extra h nm self = None"
    by (rule check_extra_None)
  moreover have "check_fields vld (cells h (fields_ref nm)) self =
      check_fields vld ((f, fld) # post) self"
    unfolding assms(2) using assms(3) by (rule check_fields_prefix)
  ultimately show ?thesis
    by (auto simp: validate_all_def)
qed

lemma validate_all_after_adding:
  assumes "distinct (map fst (cells h (fields_ref nm)))"
    and "\<forall>k \<in> fst ` set self. has_field h nm k"
    and "map_of (cells h (fields_ref nm)) f = Some fld"
    and "\<forall>(n, fl) \<in> set (cells h (fields_ref nm)). n \<noteq> f \<longrightarrow>
           (case map_of self n of None \<Rightarrow> \<not> required fl | Some w \<Rightarrow> \<exists>r. vld fl w n = Inr r)"
    and "vld fld v f = Inr r"
  shows "validate_all vld hook h nm (AList.update f v self) = hook (AList.update f v self) \<and>
    validate_all vld BaseDocument_validate h nm (AList.update f v self) = Inr PNone"
proof -
  let ?fs = "cells h (fields_ref nm)" and ?self' = "AList.update f v self"
  from assms(3) have "has_field h nm f"
    by (simp add: has_field_iff)
  with assms(2) have "\<forall>k \<in> fst ` set ?self'. has_field h nm k"
    by (auto simp: AList.dom_update)
  then have e: "check_extra h nm ?self' = None"
    by (rule check_extra_None)
  have "\<forall>(n, fl) \<in> set ?fs.
     (case map_of ?self' n of None \<Rightarrow> \<not> required fl | Some w \<Rightarrow> \<exists>r. vld fl w n = Inr r)"
  proof (clarify)
    fix n fl assume mem: "(n, fl) \<in> set ?fs"
    show "case map_of ?self' n of None \<Rightarrow> \<not> required fl | Some w \<Rightarrow> \<exists>r. vld fl w n = Inr r"
    proof (cases "n = f")
      case True
      with mem assms(1,3) have "fl = fld" by simp
      with True assms(5) show ?thesis
        by (simp add: AList.update_conv')
    next
      case False
      with mem assms(4) show ?thesis
        by (auto simp: AList.update_conv')
    qed
  qed
  then have "check_fields vld ?fs ?self' = None"
    by (rule check_fields_None)
  with e show ?thesis
    by (simp add: validate_all_def BaseDocument_validate_def)
qed

lemma validate_all_first_extra:
  "\<forall>k' \<in> fst ` set pre. has_field h nm k' \<Longrightarrow> \<not> has_field h nm k \<Longrightarrow>
   validate_all vld hook h nm (pre @ (k, w) # post) = Inl (ValidationError (ExtraFieldMsg k w))"
  by (simp add: validate_all_def check_extra_first)

text \<open>
  C5 (amended). \<^verbatim>\<open>validate_all\<close> fails on every instance that lacks a required declared
  field. With all keys of the instance declared, the error is decided by the first
  schema field, in schema order, that is not in order (present and accepted by its
  validator, or absent and optional): the \<^verbatim>\<open>ValidationError\<close> naming the field when it
  is absent and required, the validator's error when it is present and rejected. When
  all keys are declared and every other schema field is in order, storing a value that
  the field's validator accepts makes \<^verbatim>\<open>validate_all\<close> return what the \<^verbatim>\<open>validate\<close>
  hook returns: \<^verbatim>\<open>None\<close> for the hook of \<^verbatim>\<open>BaseDocument\<close>. An instance with a key that
  is not declared fails, before any field is looked at, with the \<^verbatim>\<open>ValidationError\<close>
  listing the first such key and its value.
\<close>

theorem validate_all_required:
  "(map_of (cells h (fields_ref nm)) f = Some fld \<and> required fld \<and> map_of self f = None \<longrightarrow>
      isl (validate_all vld hook h nm self)) \<and>
   ((\<forall>k \<in> fst ` set self. has_field h nm k) \<and>
    cells h (fields_ref nm) = pre @ (f, fld) # post \<and>
    (\<forall>(n, fl) \<in> set pre.
       (case map_of self n of None \<Rightarrow> \<not> required fl | Some w \<Rightarrow> \<exists>r. vld fl w n = Inr r)) \<longrightarrow>
      (map_of self f = None \<and> required fld \<longrightarrow>
         validate_all vld hook h nm self = Inl (ValidationError (RequiredMissingMsg f))) \<and>
      (\<forall>w e. map_of self f = Some w \<and> vld fld w f = Inl e \<longrightarrow>
         validate_all vld hook h nm self = Inl e)) \<and>
   (distinct (map fst (cells h (fields_ref nm))) \<and>
    (\<forall>k \<in> fst ` set self. has_field h nm k) \<and>
    map_of (cells h (fields_ref nm)) f = Some fld \<and>
    (\<forall>(n, fl) \<in> set (cells h (fields_ref nm)). n \<noteq> f \<longrightarrow>
       (case map_of self n of None \<Rightarrow> \<not> required fl | Some w \<Rightarrow> \<exists>r. vld fl w n = Inr r)) \<and>
    vld fld v f = Inr r \<longrightarrow>
      validate_all vld hook h nm (AList.update f v self) = hook (AList.update f v self) \<and>
      validate_all vld BaseDocument_validate h nm (AList.update f v self) = Inr PNone) \<and>
   (self = spre @ (k, w) # spost \<and> (\<forall>k' \<in> fst ` set spre. has_field h nm k') \<and>
    \<not> has_field h nm k \<longrightarrow>
      validate_all vld hook h nm self = Inl (ValidationError (ExtraFieldMsg k w)))"
  (is "?c1 \<and> ?c2 \<and> ?c3 \<and> ?c4")
proof -
  have c1: ?c1
    using validate_all_fails [of h nm f fld self vld hook] by blast
  have c2: ?c2
    using validate_all_first_field [of self h nm pre f fld post vld hook] by blast
  have c3: ?c3
    using validate_all_after_adding [of h nm self f fld vld v r hook] by blast
  have c4: ?c4
    using validate_all_first_extra [of spre h nm k vld hook w spost] by blast
  show ?thesis
    by (rule conjI [OF c1 conjI [OF c2 conjI [OF c3 c4]]])
qed

lemma ex_nm_r_cells:
  "cells ex_heap_r (fields_ref ex_nm_r) = [(''_id'', id_field), (''foo'', foo_field), (''bar'', bar_field)]"
  by (simp add: ex_heap_r_def ex_nm_r_def)

lemma has_field_ex_nm_r:
  "has_field ex_heap_r ex_nm_r k \<longleftrightarrow> k = ''_id'' \<or> k = ''foo'' \<or> k = ''bar''"
  by (auto simp: has_field_def ex_nm_r_cells)

text \<open>
  C5 as stated fails on the schema of a class with the required field \<^verbatim>\<open>foo\<close>: the
  instance with the only key \<^verbatim>\<open>zzz\<close> lacks \<^verbatim>\<open>foo\<close>, and the error lists \<^verbatim>\<open>zzz\<close>; the
  instance with an \<^verbatim>\<open>_id\<close> that is not an ObjectId lacks \<^verbatim>\<open>foo\<close>, and the error is the
  one of the \<^verbatim>\<open>_id\<close> validator, also after a valid \<^verbatim>\<open>foo\<close> was added.
\<close>

theorem validate_all_required_counterexample:
  "map_of (cells ex_heap_r (fields_ref ex_nm_r)) ''foo'' = Some foo_field \<and>
   required foo_field \<and>
   map_of [(''zzz'', PInt 1)] ''foo'' = None \<and>
   validate_all ex_vld BaseDocument_validate ex_heap_r ex_nm_r [(''zzz'', PInt 1)] =
     Inl (ValidationError (ExtraFieldMsg ''zzz'' (PInt 1))) \<and>
   validate_all ex_vld BaseDocument_validate ex_heap_r ex_nm_r [(''zzz'', PInt 1)] \<noteq>
     Inl (ValidationError (RequiredMissingMsg ''foo'')) \<and>
   map_of [(''_id'', PInt 5)] ''foo'' = None \<and>
   validate_all ex_vld BaseDocument_validate ex_heap_r ex_nm_r [(''_id'', PInt 5)] =
     Inl (ValidationError (ValidatorMsg ''_id'')) \<and>
   validate_all ex_vld BaseDocument_validate ex_heap_r ex_nm_r [(''_id'', PInt 5)] \<noteq>
     Inl (ValidationError (RequiredMissingMsg ''foo'')) \<and>
   ex_vld foo_field (PStr ''x'') ''foo'' = Inr (PStr ''x'') \<and>
   validate_all ex_vld BaseDocument_validate ex_heap_r ex_nm_r
     [(''_id'', PInt 5), (''foo'', PStr ''x'')] = Inl (ValidationError (ValidatorMsg ''_id''))"
  by (simp add: validate_all_def has_field_def ex_nm_r_cells ex_vld_def
      id_field_def foo_field_def bar_field_def)

theorem validate_all_required_witness:
  "has_field ex_heap_r ex_nm_r ''_id'' \<and> has_field ex_heap_r ex_nm_r ''bar'' \<and>
   \<not> has_field ex_heap_r ex_nm_r ''zzz'' \<and>
   distinct (map fst (cells ex_heap_r (fields_ref ex_nm_r))) \<and>
   cells ex_heap_r (fields_ref ex_nm_r) = [(''_id'', id_field)] @ (''foo'', foo_field) # [(''bar'', bar_field)] \<and>
   required foo_field \<and>
   ex_vld id_field (PObj 99) ''_id'' = Inr (PObj 99) \<and>
   ex_vld bar_field (PInt 42) ''bar'' = Inr (PInt 42) \<and>
   ex_vld foo_field (PStr ''x'') ''foo'' = Inr (PStr ''x'') \<and>
   ex_vld id_field (PInt 5) ''_id'' = Inl (ValidationError (ValidatorMsg ''_id'')) \<and>
   isl (validate_all ex_vld BaseDocument_validate ex_heap_r ex_nm_r [(''_id'', PInt 5)]) \<and>
   validate_all ex_vld BaseDocument_validate ex_heap_r ex_nm_r [(''_id'', PObj 99), (''bar'', PInt 42)] =
     Inl (ValidationError (RequiredMissingMsg ''foo'')) \<and>
   validate_all ex_vld BaseDocument_validate ex_heap_r ex_nm_r [(''_id'', PInt 5)] =
     Inl (ValidationError (ValidatorMsg ''_id'')) \<and>
   validate_all ex_vld BaseDocument_validate ex_heap_r ex_nm_r
     [(''_id'', PObj 99), (''bar'', PInt 42), (''foo'', PStr ''x'')] = Inr PNone \<and>
   validate_all ex_vld BaseDocument_validate ex_heap_r ex_nm_r [(''_id'', PObj 99), (''zzz'', PInt 1)] =
     Inl (ValidationError (ExtraFieldMsg ''zzz'' (PInt 1)))"
proof -
  let ?fs = "cells ex_heap_r (fields_ref ex_nm_r)"
  let ?self = "[(''_id'', PObj 99), (''bar'', PInt 42)]"
  let ?bad = "[(''_id'', PInt 5)]"
  have hf: "has_field ex_heap_r ex_nm_r ''_id''" "has_field ex_heap_r ex_nm_r ''bar''"
    "\<not> has_field ex_heap_r ex_nm_r ''zzz''"
    by (simp_all add: has_field_ex_nm_r)
  have d: "distinct (map fst ?fs)"
    by (simp add: ex_nm_r_cells)
  have split: "?fs = [(''_id'', id_field)] @ (''foo'', foo_field) # [(''bar'', bar_field)]"
    by (simp add: ex_nm_r_cells)
  have split0: "?fs = [] @ (''_id'', id_field) # [(''foo'', foo_field), (''bar'', bar_field)]"
    by (simp add: ex_nm_r_cells)
  have req: "required foo_field"
    by (simp add: foo_field_def)
  have v: "ex_vld id_field (PObj 99) ''_id'' = Inr (PObj 99)"
    "ex_vld bar_field (PInt 42) ''bar'' = Inr (PInt 42)"
    "ex_vld foo_field (PStr ''x'') ''foo'' = Inr (PStr ''x'')"
    "ex_vld id_field (PInt 5) ''_id'' = Inl (ValidationError (ValidatorMsg ''_id''))"
    by (simp_all add: ex_vld_def id_field_def bar_field_def foo_field_def)
  have keys: "\<forall>k \<in> fst ` set ?self. has_field ex_heap_r ex_nm_r k"
    "\<forall>k \<in> fst ` set ?bad. has_field ex_heap_r ex_nm_r k"
    by (simp_all add: has_field_ex_nm_r)
  have foo: "map_of ?fs ''foo'' = Some foo_field" "map_of ?self ''foo'' = None"
    "map_of ?bad ''foo'' = None" "map_of ?bad ''_id'' = Some (PInt 5)"
    by (simp_all add: ex_nm_r_cells)
  have pre: "\<forall>(n, fl) \<in> set [(''_id'', id_field)].
       (case map_of ?self n of None \<Rightarrow> \<not> required fl | Some w \<Rightarrow> \<exists>r. ex_vld fl w n = Inr r)"
    by (simp add: v)
  have pre0: "\<forall>(n, fl) \<in> set ([] :: fields_dict).
       (case map_of ?bad n of None \<Rightarrow> \<not> required fl | Some w \<Rightarrow> \<exists>r. ex_vld fl w n = Inr r)"
    by simp
  have others: "\<forall>(n, fl) \<in> set ?fs. n \<noteq> ''foo'' \<longrightarrow>
       (case map_of ?self n of None \<Rightarrow> \<not> required fl | Some w \<Rightarrow> \<exists>r. ex_vld fl w n = Inr r)"
    by (simp add: ex_nm_r_cells v)
  note t = validate_all_required [of ex_heap_r ex_nm_r "''foo''" foo_field ?self ex_vld
      BaseDocument_validate "[(''_id'', id_field)]" "[(''bar'', bar_field)]" "PStr ''x''" "PStr ''x''"]
  from validate_all_required [of ex_heap_r ex_nm_r "''foo''" foo_field ?bad ex_vld
      BaseDocument_validate, THEN conjunct1] foo(1,3) req
  have 1: "isl (validate_all ex_vld BaseDocument_validate ex_heap_r ex_nm_r ?bad)"
    by blast
  from t [THEN conjunct2, THEN conjunct1] keys(1) split pre foo(2) req
  have 2: "validate_all ex_vld BaseDocument_validate ex_heap_r ex_nm_r ?self =
     Inl (ValidationError (RequiredMissingMsg ''foo''))"
    by blast
  from validate_all_required [of ex_heap_r ex_nm_r "''_id''" id_field ?bad ex_vld
      BaseDocument_validate "[]" "[(''foo'', foo_field), (''bar'', bar_field)]",
      THEN conjunct2, THEN conjunct1] keys(2) split0 pre0 foo(4) v(4)
  have 3: "validate_all ex_vld BaseDocument_validate ex_heap_r ex_nm_r ?bad =
     Inl (ValidationError (ValidatorMsg ''_id''))"
    by blast
  have upd: "AList.update ''foo'' (PStr ''x'') ?self =
      [(''_id'', PObj 99), (''bar'', PInt 42), (''foo'', PStr ''x'')]"
    by simp
  from t [THEN conjunct2, THEN conjunct2, THEN conjunct1] d keys(1) foo(1) others v(3)
  have "validate_all ex_vld BaseDocument_validate ex_heap_r ex_nm_r
      (AList.update ''foo'' (PStr ''x'') ?self) = Inr PNone"
    by blast
  then have 4: "validate_all ex_vld BaseDocument_validate ex_heap_r ex_nm_r
      [(''_id'', PObj 99), (''bar'', PInt 42), (''foo'', PStr ''x'')] = Inr PNone"
    unfolding upd .
  have e: "[(''_id'', PObj 99), (''zzz'', PInt 1)] = [(''_id'', PObj 99)] @ (''zzz'', PInt 1) # []"
    "\<forall>k' \<in> fst ` set [(''_id'', PObj 99)]. has_field ex_heap_r ex_nm_r k'"
    by (simp_all add: has_field_ex_nm_r)
  from validate_all_required [of ex_heap_r ex_nm_r "''foo''" foo_field
      "[(''_id'', PObj 99), (''zzz'', PInt 1)]" ex_vld BaseDocument_validate "[]" "[]" "PInt 1" "PInt 1"
      "[(''_id'', PObj 99)]" "''zzz''" "PInt 1" "[]",
      THEN conjunct2, THEN conjunct2, THEN conjunct2] e hf(3)
  have 5: "validate_all ex_vld BaseDocument_validate ex_heap_r ex_nm_r
      [(''_id'', PObj 99), (''zzz'', PInt 1)] = Inl (ValidationError (ExtraFieldMsg ''zzz'' (PInt 1)))"
    by blast
  have eval: "validate_all ex_vld BaseDocument_validate ex_heap_r ex_nm_r ?self =
        Inl (ValidationError (RequiredMissingMsg ''foo'')) \<and>
      validate_all ex_vld BaseDocument_validate ex_heap_r ex_nm_r ?bad =
        Inl (ValidationError (ValidatorMsg ''_id'')) \<and>
      validate_all ex_vld BaseDocument_validate ex_heap_r ex_nm_r
        [(''_id'', PObj 99), (''bar'', PInt 42), (''foo'', PStr ''x'')] = Inr PNone \<and>
      validate_all ex_vld BaseDocument_validate ex_heap_r ex_nm_r
        [(''_id'', PObj 99), (''zzz'', PInt 1)] = Inl (ValidationError (ExtraFieldMsg ''zzz'' (PInt 1)))"
    by (simp add: validate_all_def has_field_def BaseDocument_validate_def ex_nm_r_cells ex_vld_def
        id_field_def foo_field_def bar_field_def)
  from hf d split req v 1 2 3 4 5 eval show ?thesis by blast
qed

text \<open>
  C3. A document stored as \<open>ex_saved_doc\<close>, after \<^verbatim>\<open>foo\<close> was set to a new value and
  \<^verbatim>\<open>bar\<close> was removed: \<^verbatim>\<open>save(atomic=True)\<close> hands the whole current document to
  \<^verbatim>\<open>collection.save\<close> and passes \<^verbatim>\<open>atomic\<close> on as a keyword argument. No set or unset
  operation is computed, and a second call makes the same call again.
\<close>

theorem save_atomic_issues_full_save:
  "validate_all ex_vld BaseDocument_validate ex_heap3 ex_nm3 ex_saved_doc = Inr PNone \<and>
   save ex_vld BaseDocument_validate ex_heap3 ex_nm3 ex_mutated_doc [(''atomic'', PBool True)] =
     Inr (SaveCall (Collection (PObj 7) (PStr ''nanotestdb'') (PStr ''doc''))
            [(''foo'', PStr ''y''), (''moo'', PList []), (''_id'', PObj 99)]
            [(''atomic'', PBool True)])"
  by (simp add: save_def validate_all_def get_collection_def has_field_def ex_heap3_def ex_nm3_def
      ex_saved_doc_def ex_mutated_doc_def ex_vld_def BaseDocument_validate_def
      foo_field_def bar_field_def id_field_def)

end
